theory Spec2Isabelle
  imports Complex_Main
begin

section \<open>Vimshottari dasha schedule (src/dasha/vimshottari.js)\<close>

text \<open>
  A shallow embedding of \<^verbatim>\<open>src/dasha/vimshottari.js\<close>.

  Numbers: the functions are first given in exact arithmetic over \<^typ>\<open>real\<close>; the
  structure of the schedule, which does not depend on rounding, is proved on them. The
  numbers of the source are IEEE-754 binary64 values, and the numeric kernel
  (\<open>normalize360\<close>, \<open>nakFromLon\<close>, \<open>buildWeightedSegments\<close>, the anchor) is given a second
  time with binary64 rounding, for the properties that rounding decides. NaN and the
  infinities are outside both; where the source would compute with \<^verbatim>\<open>undefined\<close> or
  NaN and then throw, the model has an error branch.

  Lords: the source uses the nine strings of \<^verbatim>\<open>LORDS\<close> as symbolic identifiers and as
  keys of \<^verbatim>\<open>YEARS\<close>; they are a datatype here, with \<open>lord_name\<close> giving the string.
\<close>

subsection \<open>Constants\<close>

datatype lord = Ketu | Venus | Sun | Moon | Mars | Rahu | Jupiter | Saturn | Mercury

definition LORDS :: "lord list" where
  "LORDS = [Ketu, Venus, Sun, Moon, Mars, Rahu, Jupiter, Saturn, Mercury]"

fun YEARS :: "lord \<Rightarrow> real" where
  "YEARS Ketu = 7"
| "YEARS Venus = 20"
| "YEARS Sun = 6"
| "YEARS Moon = 10"
| "YEARS Mars = 7"
| "YEARS Rahu = 18"
| "YEARS Jupiter = 16"
| "YEARS Saturn = 19"
| "YEARS Mercury = 17"

fun lord_name :: "lord \<Rightarrow> string" where
  "lord_name Ketu = ''Ketu''"
| "lord_name Venus = ''Venus''"
| "lord_name Sun = ''Sun''"
| "lord_name Moon = ''Moon''"
| "lord_name Mars = ''Mars''"
| "lord_name Rahu = ''Rahu''"
| "lord_name Jupiter = ''Jupiter''"
| "lord_name Saturn = ''Saturn''"
| "lord_name Mercury = ''Mercury''"

definition MS_PER_DAY :: real where
  "MS_PER_DAY = 86400 * 1000"

definition YEAR_MS :: real where
  "YEAR_MS = 31556952 * 1000"

subsection \<open>Helpers\<close>

text \<open>
  The remainder operator \<^verbatim>\<open>%\<close> of JavaScript truncates the quotient towards zero, so
  the result has the sign of the dividend.
\<close>

definition js_trunc :: "real \<Rightarrow> int" where
  "js_trunc q = (if q < 0 then \<lceil>q\<rceil> else \<lfloor>q\<rfloor>)"

definition js_rem :: "real \<Rightarrow> real \<Rightarrow> real" where
  "js_rem x y = x - y * of_int (js_trunc (x / y))"

definition normalize360 :: "real \<Rightarrow> real" where
  "normalize360 deg = (let x = js_rem deg 360 in if x < 0 then x + 360 else x)"

definition NAK_LEN_DEG :: real where
  "NAK_LEN_DEG = 360 / 27"

record nak =
  index :: int
  fracElapsed :: real

definition nakFromLon :: "real \<Rightarrow> nak" where
  "nakFromLon lonDeg =
     (let d = normalize360 lonDeg;
          idx = \<lfloor>d / NAK_LEN_DEG\<rfloor>;
          fracElapsed = (d - of_int idx * NAK_LEN_DEG) / NAK_LEN_DEG
      in \<lparr>index = idx, fracElapsed = fracElapsed\<rparr>)"

text \<open>
  \<^verbatim>\<open>Array.prototype.indexOf\<close> gives \<open>-1\<close> for an absent element, and
  \<^verbatim>\<open>Array.prototype.slice\<close> counts a negative index from the end.
\<close>

fun indexOf_from :: "'a list \<Rightarrow> 'a \<Rightarrow> int \<Rightarrow> int" where
  "indexOf_from [] x k = - 1"
| "indexOf_from (y # ys) x k = (if y = x then k else indexOf_from ys x (k + 1))"

definition indexOf :: "'a list \<Rightarrow> 'a \<Rightarrow> int" where
  "indexOf xs x = indexOf_from xs x 0"

definition slice_index :: "nat \<Rightarrow> int \<Rightarrow> nat" where
  "slice_index len i = (if i < 0 then nat (max (int len + i) 0) else min (nat i) len)"

definition slice_from :: "'a list \<Rightarrow> int \<Rightarrow> 'a list" where
  "slice_from xs i = drop (slice_index (length xs) i) xs"

definition slice_upto :: "'a list \<Rightarrow> int \<Rightarrow> 'a list" where
  "slice_upto xs i = take (slice_index (length xs) i) xs"

definition rotateFromStart :: "lord \<Rightarrow> lord list" where
  "rotateFromStart startLord =
     (let i = indexOf LORDS startLord in slice_from LORDS i @ slice_upto LORDS i)"

subsection \<open>The segment allocator\<close>

record segment =
  seg_lord :: lord
  startMs :: real
  endMs :: real
  durationMs :: real

text \<open>
  The loop of \<^verbatim>\<open>buildWeightedSegments\<close>, on the lords still to place; \<open>cursor\<close> is
  the running cursor. The test \<^verbatim>\<open>i < order.length - 1\<close> holds exactly when lords
  remain after the current one.
\<close>

fun segments_loop ::
  "real \<Rightarrow> real \<Rightarrow> (lord \<Rightarrow> real) \<Rightarrow> real \<Rightarrow> lord list \<Rightarrow> real \<Rightarrow> segment list" where
  "segments_loop parentStartMs parentDurMs weightsYears totalYears [] cursor = []"
| "segments_loop parentStartMs parentDurMs weightsYears totalYears (l # rest) cursor =
     (let segDur = (if rest \<noteq> [] then parentDurMs * (weightsYears l / totalYears)
                    else parentStartMs + parentDurMs - cursor);
          startMs = cursor;
          endMs = startMs + segDur
      in \<lparr>seg_lord = l, startMs = startMs, endMs = endMs, durationMs = segDur\<rparr> #
         segments_loop parentStartMs parentDurMs weightsYears totalYears rest endMs)"

definition buildWeightedSegments ::
  "real \<Rightarrow> real \<Rightarrow> lord list \<Rightarrow> (lord \<Rightarrow> real) \<Rightarrow> segment list" where
  "buildWeightedSegments parentStartMs parentDurMs order weightsYears =
     (let totalYears = foldl (\<lambda>acc l. acc + weightsYears l) 0 order
      in segments_loop parentStartMs parentDurMs weightsYears totalYears order parentStartMs)"

subsection \<open>Interpretation lookup\<close>

text \<open>
  \<^verbatim>\<open>interpretations.json\<close> is not part of the sources at hand: the table is a
  parameter, an object of objects of strings. \<^verbatim>\<open>String(md || '').toLowerCase()\<close> is the
  lower-cased string for a string argument; lord names are ASCII.
\<close>

type_synonym interp_table = "string \<rightharpoonup> (string \<rightharpoonup> string)"

definition lower_char :: "char \<Rightarrow> char" where
  "lower_char c =
     (let n = (of_char c :: nat) in if 65 \<le> n \<and> n \<le> 90 then char_of (n + 32) else c)"

definition toLowerCase :: "string \<Rightarrow> string" where
  "toLowerCase s = map lower_char s"

text \<open>\<^verbatim>\<open>v || null\<close> on a string or \<^verbatim>\<open>undefined\<close>/\<^verbatim>\<open>null\<close>: the empty string is falsy.\<close>

fun or_null :: "string option \<Rightarrow> string option" where
  "or_null None = None"
| "or_null (Some t) = (if t = [] then None else Some t)"

definition interpFor :: "interp_table \<Rightarrow> string \<Rightarrow> string \<Rightarrow> string option" where
  "interpFor I md ad =
     (let a = toLowerCase md;
          b = toLowerCase ad
      in case I a of
           None \<Rightarrow> None
         | Some mdBlock \<Rightarrow> or_null (mdBlock b))"

subsection \<open>The period tree\<close>

text \<open>
  \<^verbatim>\<open>toISO\<close> formats a millisecond value as an ISO-8601 string. Formatting is kept
  abstract: an instant of the output is the millisecond value handed to \<^verbatim>\<open>toISO\<close>
  (the truncation to whole milliseconds and the range limit of \<^verbatim>\<open>Date\<close> are not
  modelled).
\<close>

type_synonym instant = real

definition toISO :: "real \<Rightarrow> instant" where
  "toISO ms = ms"

record pd_node =
  pd_lord :: lord
  pd_start :: instant
  pd_end :: instant
  pd_interpretation :: "string option"

record ad_node =
  ad_lord :: lord
  ad_start :: instant
  ad_end :: instant
  ad_interpretation :: "string option"
  pratyantar :: "pd_node list"

record md_node =
  md_lord :: lord
  md_start :: instant
  md_end :: instant
  years :: real
  days :: real
  antar :: "ad_node list"

text \<open>The callback of the inner \<^verbatim>\<open>pdSegs.map\<close>.\<close>

definition mk_pratyantar :: "interp_table \<Rightarrow> lord \<Rightarrow> segment \<Rightarrow> pd_node" where
  "mk_pratyantar I adLord pd =
     (let pdLord = seg_lord pd;
          pdInterpretation = interpFor I (lord_name adLord) (lord_name pdLord)
      in \<lparr>pd_lord = pdLord, pd_start = toISO (startMs pd), pd_end = toISO (endMs pd),
          pd_interpretation = or_null pdInterpretation\<rparr>)"

text \<open>The callback of \<^verbatim>\<open>antarSegs.map\<close>.\<close>

definition mk_antar :: "interp_table \<Rightarrow> lord \<Rightarrow> segment \<Rightarrow> ad_node" where
  "mk_antar I mdLord seg =
     (let adLord = seg_lord seg;
          adInterpretation = interpFor I (lord_name mdLord) (lord_name adLord);
          pdOrder = rotateFromStart adLord;
          pdSegs = buildWeightedSegments (startMs seg) (durationMs seg) pdOrder YEARS;
          pratyantar = map (mk_pratyantar I adLord) pdSegs
      in \<lparr>ad_lord = adLord, ad_start = toISO (startMs seg), ad_end = toISO (endMs seg),
          ad_interpretation = or_null adInterpretation, pratyantar = pratyantar\<rparr>)"

text \<open>\<^verbatim>\<open>pushMD\<close> appends one Major node to \<^verbatim>\<open>sequence\<close>; the model returns the node.\<close>

definition pushMD :: "interp_table \<Rightarrow> lord \<Rightarrow> real \<Rightarrow> real \<Rightarrow> md_node" where
  "pushMD I mdLord mdStart mdEnd =
     (let mdDur = mdEnd - mdStart;
          antarOrder = rotateFromStart mdLord;
          antarSegs = buildWeightedSegments mdStart mdDur antarOrder YEARS;
          antar = map (mk_antar I mdLord) antarSegs
      in \<lparr>md_lord = mdLord, md_start = toISO mdStart, md_end = toISO mdEnd,
          years = YEARS mdLord, days = mdDur / MS_PER_DAY, antar = antar\<rparr>)"

text \<open>
  The loop \<^verbatim>\<open>outer: for (;;)\<close> with its two inner loops. \<open>full\<close> is false in the first
  inner loop (from index 1) and true in the second (from index 0); when the second ends,
  the outer loop starts the first again. The result is the list of the nodes pushed from
  this point on. \<open>cycleOrder\<close> is \<open>rotateFromStart startLord\<close>, as in the source.
\<close>

function md_loop ::
  "interp_table \<Rightarrow> lord \<Rightarrow> real \<Rightarrow> bool \<Rightarrow> nat \<Rightarrow> real \<Rightarrow> md_node list" where
  "md_loop I startLord capEnd full i mdStartMs =
     (let cycleOrder = rotateFromStart startLord
      in if i < length cycleOrder then
           (let l = cycleOrder ! i;
                durMs = YEAR_MS * YEARS l;
                mdEnd = mdStartMs + durMs
            in if mdEnd > capEnd then [pushMD I l mdStartMs capEnd]
               else pushMD I l mdStartMs mdEnd # md_loop I startLord capEnd full (i + 1) mdEnd)
         else if full then md_loop I startLord capEnd False 1 mdStartMs
         else md_loop I startLord capEnd True 0 mdStartMs)"
  by pat_completeness auto

termination md_loop
proof (relation "measures
    [\<lambda>(I, s, capEnd, full, i, mdStartMs). nat \<lceil>(capEnd - mdStartMs) / YEAR_MS\<rceil>,
     \<lambda>(I, s, capEnd, full, i, mdStartMs). if i < length (rotateFromStart s) then 0 else 1]",
    goal_cases)
  case 1
  show ?case by simp
next
  case (2 I startLord capEnd full i mdStartMs cyc l durMs mdEnd)
  have y: "6 \<le> YEARS l" by (cases l) simp_all
  have pos: "0 < YEAR_MS" by (simp add: YEAR_MS_def)
  from 2 have le: "mdStartMs + YEAR_MS * YEARS l \<le> capEnd" by simp
  have eq: "(capEnd - mdStartMs) / YEAR_MS = (capEnd - mdEnd) / YEAR_MS + YEARS l"
    using 2 pos by (simp add: field_simps)
  have nn: "0 \<le> (capEnd - mdEnd) / YEAR_MS" using 2 le pos by simp
  have "\<lceil>(capEnd - mdEnd) / YEAR_MS + 6\<rceil> \<le> \<lceil>(capEnd - mdEnd) / YEAR_MS + YEARS l\<rceil>"
    by (rule ceiling_mono) (use y in simp)
  then have "\<lceil>(capEnd - mdEnd) / YEAR_MS\<rceil> + 6 \<le> \<lceil>(capEnd - mdStartMs) / YEAR_MS\<rceil>"
    unfolding eq by simp
  moreover have "0 \<le> \<lceil>(capEnd - mdEnd) / YEAR_MS\<rceil>" using nn by simp
  ultimately have
    "nat \<lceil>(capEnd - mdEnd) / YEAR_MS\<rceil> < nat \<lceil>(capEnd - mdStartMs) / YEAR_MS\<rceil>"
    by linarith
  then show ?case by simp
next
  case (3 I startLord capEnd full i mdStartMs cyc)
  have "length (rotateFromStart startLord) = 9"
    by (cases startLord)
      (simp_all add: rotateFromStart_def LORDS_def indexOf_def slice_from_def
        slice_upto_def slice_index_def)
  with 3 show ?case by simp
next
  case (4 I startLord capEnd full i mdStartMs cyc)
  have "length (rotateFromStart startLord) = 9"
    by (cases startLord)
      (simp_all add: rotateFromStart_def LORDS_def indexOf_def slice_from_def
        slice_upto_def slice_index_def)
  with 4 show ?case by simp
qed

declare md_loop.simps [simp del]

subsection \<open>computeVimshottari\<close>

text \<open>
  The payload. \<open>birthDate\<close>, \<open>birthTime\<close> and \<open>timeZone\<close> are \<open>None\<close> when
  \<^verbatim>\<open>undefined\<close> or \<^verbatim>\<open>null\<close>; \<open>moonSiderealDeg\<close> is \<open>None\<close> when its \<^verbatim>\<open>typeof\<close> is
  not \<^verbatim>\<open>'number'\<close>. \<open>totalYears\<close> is \<open>None\<close> only when the property is absent or
  \<^verbatim>\<open>undefined\<close>, the one case in which the destructuring default 120 applies;
  otherwise it is the number that enters the arithmetic, and that number is 0 for
  \<^verbatim>\<open>null\<close>.
\<close>

record payload =
  birthDate :: "string option"
  birthTime :: "string option"
  timeZone :: "string option"
  moonSiderealDeg :: "real option"
  totalYears :: "real option"

datatype error = InvalidPayload | RangeError

record meta =
  birthUTC :: instant
  meta_startLord :: lord

record schedule =
  meta :: meta
  sequence :: "md_node list"

text \<open>\<^verbatim>\<open>!v\<close> for a string or \<^verbatim>\<open>undefined\<close>: missing and empty are falsy.\<close>

fun falsy :: "string option \<Rightarrow> bool" where
  "falsy None = True"
| "falsy (Some s) = (s = [])"

text \<open>\<^verbatim>\<open>xs[k]\<close> for a number \<open>k\<close>: \<^verbatim>\<open>undefined\<close> unless \<open>k\<close> is an index of the array.\<close>

definition array_get :: "'a list \<Rightarrow> real \<Rightarrow> 'a option" where
  "array_get xs k =
     (if k = of_int \<lfloor>k\<rfloor> \<and> 0 \<le> k \<and> k < of_nat (length xs) then Some (xs ! nat \<lfloor>k\<rfloor>)
      else None)"

text \<open>
  The part of \<^verbatim>\<open>computeVimshottari\<close> after the instant is resolved. With a start lord
  that is \<^verbatim>\<open>undefined\<close> the source computes NaN durations and \<^verbatim>\<open>toISO\<close> throws a
  \<^verbatim>\<open>RangeError\<close> on the first NaN instant.
\<close>

definition schedule_from :: "interp_table \<Rightarrow> real \<Rightarrow> real \<Rightarrow> real \<Rightarrow> error + schedule" where
  "schedule_from I birthMs lonDeg horizonYears =
     (let nak = nakFromLon lonDeg
      in case array_get LORDS (js_rem (of_int (index nak)) 9) of
           None \<Rightarrow> Inl RangeError
         | Some startLord \<Rightarrow>
             (let mdTotalMs = YEAR_MS * YEARS startLord;
                  elapsedMs = mdTotalMs * fracElapsed nak;
                  mdRemainingMs = mdTotalMs - elapsedMs;
                  capEnd = birthMs + YEAR_MS * horizonYears;
                  mdStartMs = birthMs;
                  mdEndMs = min (birthMs + mdRemainingMs) capEnd;
                  first = pushMD I startLord mdStartMs mdEndMs;
                  mdStartMs = mdEndMs
              in if mdStartMs \<ge> capEnd
                 then Inr \<lparr>meta = \<lparr>birthUTC = toISO birthMs, meta_startLord = startLord\<rparr>,
                           sequence = [first]\<rparr>
                 else Inr \<lparr>meta = \<lparr>birthUTC = toISO birthMs, meta_startLord = startLord\<rparr>,
                           sequence = first # md_loop I startLord capEnd False 1 mdStartMs\<rparr>))"

text \<open>The default of the destructured parameter: \<^verbatim>\<open>totalYears = 120\<close>.\<close>

definition horizonYears :: "payload \<Rightarrow> real" where
  "horizonYears p = (case totalYears p of None \<Rightarrow> 120 | Some y \<Rightarrow> y)"

text \<open>
  \<open>moment_tz\<close> stands for \<^verbatim>\<open>moment.tz(text, zone).utc().valueOf()\<close>, an external
  collaborator: \<open>None\<close> is an invalid date, whose value is NaN. The source does not
  test for it: NaN reaches \<^verbatim>\<open>toISO\<close> inside the first \<^verbatim>\<open>pushMD\<close>, which throws a
  \<^verbatim>\<open>RangeError\<close>. Past the guard the three strings and the longitude are present.
\<close>

definition computeVimshottari ::
  "(string \<Rightarrow> string \<Rightarrow> real option) \<Rightarrow> interp_table \<Rightarrow> payload \<Rightarrow> error + schedule" where
  "computeVimshottari moment_tz I p =
     (if falsy (birthDate p) \<or> falsy (birthTime p) \<or> falsy (timeZone p) \<or>
         moonSiderealDeg p = None
      then Inl InvalidPayload
      else
        (case moment_tz (the (birthDate p) @ '' '' @ the (birthTime p)) (the (timeZone p)) of
           None \<Rightarrow> Inl RangeError
         | Some birthMs \<Rightarrow>
             schedule_from I birthMs (the (moonSiderealDeg p)) (horizonYears p)))"

subsection \<open>Example inputs\<close>

text \<open>An instant resolver that answers 2000-01-01T00:00:00Z, in milliseconds.\<close>

definition example_tz :: "string \<Rightarrow> string \<Rightarrow> real option" where
  "example_tz text zone = Some 946684800000"

definition example_table :: interp_table where
  "example_table = [''sun'' \<mapsto> [''moon'' \<mapsto> ''Sun-Moon'']]"

definition example_payload :: "real \<Rightarrow> real option \<Rightarrow> payload" where
  "example_payload lonDeg horizon =
     \<lparr>birthDate = Some ''2000-01-01'', birthTime = Some ''00:00'', timeZone = Some ''UTC'',
      moonSiderealDeg = Some lonDeg, totalYears = horizon\<rparr>"

text \<open>The Major nodes of a result; none when the call throws.\<close>

definition sequence_of :: "error + schedule \<Rightarrow> md_node list" where
  "sequence_of r = (case r of Inl e \<Rightarrow> [] | Inr out \<Rightarrow> sequence out)"

subsection \<open>Intervals that tile a span\<close>

fun contiguous :: "(real \<times> real) list \<Rightarrow> bool" where
  "contiguous [] = True"
| "contiguous [x] = True"
| "contiguous (x # y # rest) = (snd x = fst y \<and> contiguous (y # rest))"

fun non_overlapping :: "(real \<times> real) list \<Rightarrow> bool" where
  "non_overlapping [] = True"
| "non_overlapping (x # rest) = (list_all (\<lambda>y. snd x \<le> fst y) rest \<and> non_overlapping rest)"

text \<open>
  The intervals \<open>ivs\<close>, pairs of a start and an end, tile the span from \<open>s\<close> to \<open>e\<close>:
  they are contiguous, do not overlap, are sorted by start, begin at \<open>s\<close>, end at \<open>e\<close>,
  and their durations add up to \<open>e - s\<close>.
\<close>

definition tiles :: "real \<Rightarrow> real \<Rightarrow> (real \<times> real) list \<Rightarrow> bool" where
  "tiles s e ivs =
     (ivs \<noteq> [] \<and> fst (hd ivs) = s \<and> snd (last ivs) = e \<and> contiguous ivs \<and>
      non_overlapping ivs \<and> sorted (map fst ivs) \<and>
      sum_list (map (\<lambda>iv. snd iv - fst iv) ivs) = e - s)"

definition ad_interval :: "ad_node \<Rightarrow> real \<times> real" where
  "ad_interval a = (ad_start a, ad_end a)"

definition pd_interval :: "pd_node \<Rightarrow> real \<times> real" where
  "pd_interval a = (pd_start a, pd_end a)"

definition seg_interval :: "segment \<Rightarrow> real \<times> real" where
  "seg_interval s = (startMs s, endMs s)"

definition md_interval :: "md_node \<Rightarrow> real \<times> real" where
  "md_interval m = (md_start m, md_end m)"

text \<open>
  The payloads that pass the guard of \<open>computeVimshottari\<close> and whose instant the
  resolver accepts.
\<close>

definition accepted :: "(string \<Rightarrow> string \<Rightarrow> real option) \<Rightarrow> payload \<Rightarrow> bool" where
  "accepted moment_tz p =
     (case (birthDate p, birthTime p, timeZone p, moonSiderealDeg p) of
        (Some d, Some t, Some z, Some lonDeg) \<Rightarrow>
          d \<noteq> [] \<and> t \<noteq> [] \<and> z \<noteq> [] \<and> moment_tz (d @ '' '' @ t) z \<noteq> None
      | _ \<Rightarrow> False)"

subsection \<open>Binary64 arithmetic\<close>

text \<open>
  The numbers of the source are IEEE-754 binary64 values. The definitions above compute
  in exact arithmetic and carry the properties that do not depend on rounding. For the
  properties that do, this part gives the numeric functions of the source again, with
  every arithmetic operation rounded as the machine rounds it: to the nearest binary64
  value, ties to the even significand.

  \<open>fl\<close> rounds a real to binary64. The spacing of the binary64 values around \<open>x\<close> is
  \<open>2 ^ (e - 52)\<close> for \<open>2 ^ e \<le> \<bar>x\<bar> < 2 ^ (e + 1)\<close>, and \<open>2 ^ - 1074\<close> below the
  smallest normal value \<open>2 ^ - 1022\<close>. Overflow to an infinity and NaN are not modelled.
  The remainder \<^verbatim>\<open>%\<close> and \<^verbatim>\<open>Math.floor\<close> are exact on binary64 values.
\<close>

definition round_even :: "real \<Rightarrow> int" where
  "round_even x =
     (let f = \<lfloor>x\<rfloor>; r = x - of_int f
      in if r < 1 / 2 then f else if 1 / 2 < r then f + 1 else if even f then f else f + 1)"

text \<open>
  The largest power of two not above \<open>x\<close>, found from 1 by doubling or halving. 1023
  doublings reach the largest binade of binary64; the halving stops after 1022 steps, at
  the smallest normal value, below which the spacing does not shrink any further.
\<close>

fun pow2_up :: "nat \<Rightarrow> real \<Rightarrow> real \<Rightarrow> real" where
  "pow2_up 0 x p = p"
| "pow2_up (Suc n) x p = (if 2 * p \<le> x then pow2_up n x (2 * p) else p)"

fun pow2_down :: "nat \<Rightarrow> real \<Rightarrow> real \<Rightarrow> real" where
  "pow2_down 0 x p = p"
| "pow2_down (Suc n) x p = (if x < p then pow2_down n x (p / 2) else p)"

definition binade :: "real \<Rightarrow> real" where
  "binade x = (if 1 \<le> x then pow2_up 1023 x 1 else pow2_down 1022 x 1)"

definition fl :: "real \<Rightarrow> real" where
  "fl x =
     (if x = 0 then 0
      else (let u = binade \<bar>x\<bar> / 2 ^ 52 in of_int (round_even (x / u)) * u))"

definition NAK_LEN_DEG_f64 :: real where
  "NAK_LEN_DEG_f64 = fl (360 / 27)"

definition normalize360_f64 :: "real \<Rightarrow> real" where
  "normalize360_f64 deg = (let x = js_rem deg 360 in if x < 0 then fl (x + 360) else x)"

definition nakFromLon_f64 :: "real \<Rightarrow> nak" where
  "nakFromLon_f64 lonDeg =
     (let d = normalize360_f64 lonDeg;
          idx = \<lfloor>fl (d / NAK_LEN_DEG_f64)\<rfloor>;
          fracElapsed = fl (fl (d - fl (of_int idx * NAK_LEN_DEG_f64)) / NAK_LEN_DEG_f64)
      in \<lparr>index = idx, fracElapsed = fracElapsed\<rparr>)"

fun segments_loop_f64 ::
  "real \<Rightarrow> real \<Rightarrow> (lord \<Rightarrow> real) \<Rightarrow> real \<Rightarrow> lord list \<Rightarrow> real \<Rightarrow> segment list" where
  "segments_loop_f64 parentStartMs parentDurMs weightsYears totalWeight [] cursor = []"
| "segments_loop_f64 parentStartMs parentDurMs weightsYears totalWeight (l # rest) cursor =
     (let segDur = (if rest \<noteq> [] then fl (parentDurMs * fl (weightsYears l / totalWeight))
                    else fl (fl (parentStartMs + parentDurMs) - cursor));
          startMs = cursor;
          endMs = fl (startMs + segDur)
      in \<lparr>seg_lord = l, startMs = startMs, endMs = endMs, durationMs = segDur\<rparr> #
         segments_loop_f64 parentStartMs parentDurMs weightsYears totalWeight rest endMs)"

definition buildWeightedSegments_f64 ::
  "real \<Rightarrow> real \<Rightarrow> lord list \<Rightarrow> (lord \<Rightarrow> real) \<Rightarrow> segment list" where
  "buildWeightedSegments_f64 parentStartMs parentDurMs order weightsYears =
     (let totalWeight = foldl (\<lambda>acc l. fl (acc + weightsYears l)) 0 order
      in segments_loop_f64 parentStartMs parentDurMs weightsYears totalWeight order
           parentStartMs)"

text \<open>
  The start lord and the remaining portion of the starting period, as
  \<^verbatim>\<open>computeVimshottari\<close> computes them from the longitude: the start lord, the full
  duration \<open>mdTotalMs\<close> and \<open>mdRemainingMs\<close>.
\<close>

definition anchor_f64 :: "real \<Rightarrow> (lord \<times> real \<times> real) option" where
  "anchor_f64 lonDeg =
     (let nak = nakFromLon_f64 lonDeg
      in case array_get LORDS (js_rem (of_int (index nak)) 9) of
           None \<Rightarrow> None
         | Some startLord \<Rightarrow>
             (let mdTotalMs = fl (YEAR_MS * YEARS startLord);
                  elapsedMs = fl (mdTotalMs * fracElapsed nak);
                  mdRemainingMs = fl (mdTotalMs - elapsedMs)
              in Some (startLord, mdTotalMs, mdRemainingMs)))"

section \<open>Properties\<close>

subsection \<open>The lord cycle\<close>

lemma rotateFromStart_cases:
  "rotateFromStart Ketu = [Ketu, Venus, Sun, Moon, Mars, Rahu, Jupiter, Saturn, Mercury]"
  "rotateFromStart Venus = [Venus, Sun, Moon, Mars, Rahu, Jupiter, Saturn, Mercury, Ketu]"
  "rotateFromStart Sun = [Sun, Moon, Mars, Rahu, Jupiter, Saturn, Mercury, Ketu, Venus]"
  "rotateFromStart Moon = [Moon, Mars, Rahu, Jupiter, Saturn, Mercury, Ketu, Venus, Sun]"
  "rotateFromStart Mars = [Mars, Rahu, Jupiter, Saturn, Mercury, Ketu, Venus, Sun, Moon]"
  "rotateFromStart Rahu = [Rahu, Jupiter, Saturn, Mercury, Ketu, Venus, Sun, Moon, Mars]"
  "rotateFromStart Jupiter = [Jupiter, Saturn, Mercury, Ketu, Venus, Sun, Moon, Mars, Rahu]"
  "rotateFromStart Saturn = [Saturn, Mercury, Ketu, Venus, Sun, Moon, Mars, Rahu, Jupiter]"
  "rotateFromStart Mercury = [Mercury, Ketu, Venus, Sun, Moon, Mars, Rahu, Jupiter, Saturn]"
  by (simp_all add: rotateFromStart_def LORDS_def indexOf_def slice_from_def slice_upto_def
      slice_index_def)

lemma length_rotateFromStart: "length (rotateFromStart l) = 9"
  by (cases l) (simp_all add: rotateFromStart_cases)

lemma rotateFromStart_nonempty: "rotateFromStart l \<noteq> []"
  using length_rotateFromStart [of l] by auto

lemma indexOf_LORDS:
  "0 \<le> indexOf LORDS l \<and> indexOf LORDS l < 9 \<and> LORDS ! nat (indexOf LORDS l) = l"
  by (cases l) (simp_all add: LORDS_def indexOf_def)

lemma rotateFromStart_rotate: "rotateFromStart l = rotate (nat (indexOf LORDS l)) LORDS"
proof -
  have len: "length LORDS = 9" by (simp add: LORDS_def)
  have lt: "nat (indexOf LORDS l) < 9" using indexOf_LORDS [of l] by linarith
  have ge: "\<not> indexOf LORDS l < 0" using indexOf_LORDS [of l] by linarith
  show ?thesis
    using lt ge
    by (simp add: rotateFromStart_def slice_from_def slice_upto_def slice_index_def
        rotate_drop_take Let_def len)
qed

lemma set_LORDS: "set LORDS = UNIV"
proof -
  have "l \<in> set LORDS" for l by (cases l) (simp_all add: LORDS_def)
  then show ?thesis by blast
qed

lemma distinct_LORDS: "distinct LORDS"
  by (simp add: LORDS_def)

lemma YEARS_ge: "6 \<le> YEARS l"
  by (cases l) simp_all

lemma YEARS_pos: "0 < YEARS l"
  using YEARS_ge [of l] by linarith

lemma YEAR_MS_pos: "0 < YEAR_MS"
  by (simp add: YEAR_MS_def)

lemma foldl_weights:
  "foldl (\<lambda>acc l. acc + w l) (a :: real) order = a + sum_list (map w order)"
  by (induction order arbitrary: a) simp_all

lemma sum_YEARS_rotate: "sum_list (map YEARS (rotateFromStart l)) = 120"
  by (cases l) (simp_all add: rotateFromStart_cases)

subsection \<open>Longitude to nakshatra\<close>

lemma normalize360_range: "0 \<le> normalize360 x \<and> normalize360 x < 360"
proof -
  define q where "q = x / 360"
  have x: "x = 360 * q" by (simp add: q_def)
  have f: "of_int \<lfloor>q\<rfloor> \<le> q" "q < of_int \<lfloor>q\<rfloor> + 1" by linarith+
  have c: "q \<le> of_int \<lceil>q\<rceil>" "of_int \<lceil>q\<rceil> < q + 1" by linarith+
  have b: "- 360 < js_rem x 360 \<and> js_rem x 360 < 360"
  proof (cases "q < 0")
    case True
    then have r: "js_rem x 360 = 360 * q - 360 * of_int \<lceil>q\<rceil>"
      by (simp add: js_rem_def js_trunc_def q_def)
    show ?thesis unfolding r using c by linarith
  next
    case False
    then have r: "js_rem x 360 = 360 * q - 360 * of_int \<lfloor>q\<rfloor>"
      by (simp add: js_rem_def js_trunc_def q_def)
    show ?thesis unfolding r using f by linarith
  qed
  show ?thesis
  proof (cases "js_rem x 360 < 0")
    case True
    then show ?thesis using b by (simp add: normalize360_def Let_def)
  next
    case False
    then show ?thesis using b by (simp add: normalize360_def Let_def)
  qed
qed

lemma nakFromLon_fields:
  "index (nakFromLon x) = \<lfloor>normalize360 x * 27 / 360\<rfloor>"
  "fracElapsed (nakFromLon x) = normalize360 x * 27 / 360 - of_int \<lfloor>normalize360 x * 27 / 360\<rfloor>"
  by (simp_all add: nakFromLon_def Let_def NAK_LEN_DEG_def field_simps)

lemma nakFromLon_range:
  "0 \<le> index (nakFromLon x) \<and> index (nakFromLon x) \<le> 26 \<and>
   0 \<le> fracElapsed (nakFromLon x) \<and> fracElapsed (nakFromLon x) < 1"
proof -
  define r where "r = normalize360 x * 27 / 360"
  have r: "0 \<le> r" "r < 27" using normalize360_range [of x] by (simp_all add: r_def)
  have "0 \<le> \<lfloor>r\<rfloor>" using r by simp
  moreover have "\<lfloor>r\<rfloor> < 27" using r by (simp add: floor_less_iff)
  moreover have "0 \<le> r - of_int \<lfloor>r\<rfloor>" "r - of_int \<lfloor>r\<rfloor> < 1" by linarith+
  ultimately show ?thesis by (simp add: nakFromLon_fields r_def)
qed

lemma js_rem_nonneg_int:
  assumes "0 \<le> k"
  shows "js_rem (of_int k) 9 = of_int (k mod 9)"
proof -
  have "\<not> (of_int k / 9 < (0::real))" using assms by simp
  moreover have "\<lfloor>(of_int k :: real) / 9\<rfloor> = k div 9"
    using floor_divide_of_int_eq [of k 9, where ?'a = real] by simp
  ultimately have "js_rem (of_int k) 9 = of_int k - 9 * of_int (k div 9)"
    by (simp add: js_rem_def js_trunc_def)
  also have "\<dots> = of_int (k - 9 * (k div 9))" by simp
  also have "k - 9 * (k div 9) = k mod 9" by (simp add: minus_mult_div_eq_mod)
  finally show ?thesis .
qed

lemma array_get_int:
  assumes "0 \<le> k" "k < int (length xs)"
  shows "array_get xs (of_int k) = Some (xs ! nat k)"
  using assms by (simp add: array_get_def)

lemma start_lord_lookup:
  "array_get LORDS (js_rem (of_int (index (nakFromLon x))) 9) =
     Some (LORDS ! nat (index (nakFromLon x) mod 9))"
proof -
  have "0 \<le> index (nakFromLon x)" using nakFromLon_range [of x] by simp
  then have "js_rem (of_int (index (nakFromLon x))) 9 = of_int (index (nakFromLon x) mod 9)"
    by (rule js_rem_nonneg_int)
  moreover have "array_get LORDS (of_int (index (nakFromLon x) mod 9)) =
      Some (LORDS ! nat (index (nakFromLon x) mod 9))"
    by (rule array_get_int) (simp_all add: LORDS_def)
  ultimately show ?thesis by simp
qed

subsection \<open>The segment allocator\<close>

lemma seg_lord_segments_loop: "map seg_lord (segments_loop ps pd w t order c) = order"
  by (induction order arbitrary: c) (simp_all add: Let_def)

lemma segments_loop_nonempty: "order \<noteq> [] \<Longrightarrow> segments_loop ps pd w t order c \<noteq> []"
  by (cases order) (simp_all add: Let_def)

lemma segments_loop_hd: "order \<noteq> [] \<Longrightarrow> startMs (hd (segments_loop ps pd w t order c)) = c"
  by (cases order) (simp_all add: Let_def)

lemma segments_loop_end: "s \<in> set (segments_loop ps pd w t order c) \<Longrightarrow> endMs s = startMs s + durationMs s"
  by (induction order arbitrary: c) (auto simp add: Let_def split: if_splits)

lemma segments_loop_last:
  "order \<noteq> [] \<Longrightarrow>
   endMs (last (segments_loop ps pd w t order c)) = ps + pd \<and>
   durationMs (last (segments_loop ps pd w t order c)) =
     ps + pd - startMs (last (segments_loop ps pd w t order c))"
proof (induction order arbitrary: c)
  case Nil
  then show ?case by simp
next
  case (Cons l rest)
  show ?case
  proof (cases "rest = []")
    case True
    then show ?thesis by (simp add: Let_def)
  next
    case False
    then have "segments_loop ps pd w t rest (c + pd * (w l / t)) \<noteq> []"
      by (rule segments_loop_nonempty)
    then show ?thesis using Cons.IH [OF False] False by (simp add: Let_def)
  qed
qed

text \<open>
  In exact arithmetic the cursor has advanced by the share of the lords placed so far, so
  what remains for the lords still to place is their share of the parent.
\<close>

lemma seg_interval_simps:
  "fst (seg_interval s) = startMs s" "snd (seg_interval s) = endMs s"
  by (simp_all add: seg_interval_def)

lemma segments_loop_tiles:
  assumes "rest \<noteq> []" and "\<forall>l \<in> set rest. 0 < w l" and "0 < t" and "0 \<le> pd"
    and "c + pd * (sum_list (map w rest) / t) = ps + pd"
  shows "contiguous (map seg_interval (segments_loop ps pd w t rest c)) \<and>
    non_overlapping (map seg_interval (segments_loop ps pd w t rest c)) \<and>
    sorted (map fst (map seg_interval (segments_loop ps pd w t rest c))) \<and>
    sum_list (map (\<lambda>iv. snd iv - fst iv) (map seg_interval (segments_loop ps pd w t rest c))) =
      ps + pd - c \<and>
    (\<forall>s \<in> set (segments_loop ps pd w t rest c).
       c \<le> startMs s \<and> startMs s \<le> endMs s \<and> endMs s \<le> ps + pd \<and> 0 \<le> durationMs s)"
  using assms
proof (induction rest arbitrary: c)
  case Nil
  then show ?case by simp
next
  case (Cons l rest)
  have wl: "0 < w l" using Cons.prems(2) by simp
  show ?case
  proof (cases "rest = []")
    case True
    have "pd * (w l / t) = ps + pd - c" using Cons.prems(5) True by simp
    moreover have "0 \<le> pd * (w l / t)" using wl Cons.prems(3,4) by simp
    ultimately have "0 \<le> ps + pd - c" by simp
    then show ?thesis using True by (simp add: Let_def seg_interval_simps)
  next
    case False
    let ?d = "pd * (w l / t)"
    let ?c' = "c + ?d"
    let ?r = "segments_loop ps pd w t rest ?c'"
    have d: "0 \<le> ?d" using wl Cons.prems(3,4) by simp
    have inv: "?c' + pd * (sum_list (map w rest) / t) = ps + pd"
      using Cons.prems(5) by (simp add: algebra_simps add_divide_distrib)
    have pos: "\<forall>l \<in> set rest. 0 < w l" using Cons.prems(2) by simp
    note IH = Cons.IH [OF False pos Cons.prems(3) Cons.prems(4) inv]
    have ne: "?r \<noteq> []" using False by (rule segments_loop_nonempty)
    have hd: "startMs (hd ?r) = ?c'" using False by (rule segments_loop_hd)
    obtain x xs where r: "?r = x # xs" using ne by (cases ?r) auto
    have x: "startMs x = ?c'" using hd r by simp
    have unfold: "segments_loop ps pd w t (l # rest) c =
        \<lparr>seg_lord = l, startMs = c, endMs = ?c', durationMs = ?d\<rparr> # ?r"
      using False by (simp add: Let_def)
    have in_r: "\<forall>s \<in> set ?r. ?c' \<le> startMs s \<and> startMs s \<le> endMs s \<and>
        endMs s \<le> ps + pd \<and> 0 \<le> durationMs s"
      using IH by blast
    have c1: "contiguous (map seg_interval (segments_loop ps pd w t (l # rest) c))"
      using IH x unfolding unfold r by (simp add: seg_interval_simps)
    have c2: "non_overlapping (map seg_interval (segments_loop ps pd w t (l # rest) c))"
      using IH in_r unfolding unfold by (simp add: seg_interval_simps list_all_iff)
    have c3: "sorted (map fst (map seg_interval (segments_loop ps pd w t (l # rest) c)))"
      using IH in_r d unfolding unfold by (auto simp add: seg_interval_simps)
    have c4: "sum_list (map (\<lambda>iv. snd iv - fst iv)
        (map seg_interval (segments_loop ps pd w t (l # rest) c))) = ps + pd - c"
      using IH unfolding unfold by (simp add: seg_interval_simps)
    have le: "?c' \<le> ps + pd"
      using in_r r x by auto
    have c5: "\<forall>s \<in> set (segments_loop ps pd w t (l # rest) c).
        c \<le> startMs s \<and> startMs s \<le> endMs s \<and> endMs s \<le> ps + pd \<and> 0 \<le> durationMs s"
      using in_r d le unfolding unfold by auto
    show ?thesis using c1 c2 c3 c4 c5 by blast
  qed
qed

lemma buildWeightedSegments_tiles:
  assumes "order \<noteq> []" and "\<forall>l \<in> set order. 0 < w l" and "0 \<le> pd"
  shows "tiles ps (ps + pd) (map seg_interval (buildWeightedSegments ps pd order w))"
    and "\<forall>s \<in> set (buildWeightedSegments ps pd order w).
       startMs s + durationMs s = endMs s \<and> 0 \<le> durationMs s"
proof -
  let ?t = "sum_list (map w order)"
  let ?segs = "segments_loop ps pd w ?t order ps"
  have b: "buildWeightedSegments ps pd order w = ?segs"
    by (simp add: buildWeightedSegments_def foldl_weights)
  obtain l rest where order: "order = l # rest" using assms(1) by (cases order) auto
  have "0 < w l" using assms(2) order by simp
  moreover have "0 \<le> sum_list (map w rest)"
    using assms(2) order by (intro sum_list_nonneg) auto
  ultimately have t: "0 < ?t" using order by simp
  have inv: "ps + pd * (?t / ?t) = ps + pd" using t by simp
  note T = segments_loop_tiles [OF assms(1) assms(2) t assms(3) inv]
  have ne: "?segs \<noteq> []" using assms(1) by (rule segments_loop_nonempty)
  have first: "fst (hd (map seg_interval ?segs)) = ps"
    using ne segments_loop_hd [OF assms(1), of ps pd w ?t ps]
    by (simp add: hd_map seg_interval_simps)
  have lst: "snd (last (map seg_interval ?segs)) = ps + pd"
    using ne segments_loop_last [OF assms(1), of ps pd w ?t ps]
    by (simp add: last_map seg_interval_simps)
  show "tiles ps (ps + pd) (map seg_interval (buildWeightedSegments ps pd order w))"
    unfolding b tiles_def using ne first lst T by simp
  show "\<forall>s \<in> set (buildWeightedSegments ps pd order w).
       startMs s + durationMs s = endMs s \<and> 0 \<le> durationMs s"
    unfolding b using T segments_loop_end by auto
qed

subsection \<open>One Major node\<close>

lemma pushMD_fields:
  "md_lord (pushMD I l s e) = l"
  "md_start (pushMD I l s e) = s"
  "md_end (pushMD I l s e) = e"
  "years (pushMD I l s e) = YEARS l"
  "days (pushMD I l s e) = (e - s) / MS_PER_DAY"
  "antar (pushMD I l s e) =
     map (mk_antar I l) (buildWeightedSegments s (e - s) (rotateFromStart l) YEARS)"
  by (simp_all add: pushMD_def Let_def toISO_def)

lemma mk_antar_fields:
  "ad_lord (mk_antar I l seg) = seg_lord seg"
  "ad_start (mk_antar I l seg) = startMs seg"
  "ad_end (mk_antar I l seg) = endMs seg"
  "ad_interpretation (mk_antar I l seg) = or_null (interpFor I (lord_name l) (lord_name (seg_lord seg)))"
  "pratyantar (mk_antar I l seg) =
     map (mk_pratyantar I (seg_lord seg))
       (buildWeightedSegments (startMs seg) (durationMs seg) (rotateFromStart (seg_lord seg)) YEARS)"
  by (simp_all add: mk_antar_def Let_def toISO_def)

lemma mk_pratyantar_fields:
  "pd_lord (mk_pratyantar I l seg) = seg_lord seg"
  "pd_start (mk_pratyantar I l seg) = startMs seg"
  "pd_end (mk_pratyantar I l seg) = endMs seg"
  "pd_interpretation (mk_pratyantar I l seg) =
     or_null (interpFor I (lord_name l) (lord_name (seg_lord seg)))"
  by (simp_all add: mk_pratyantar_def Let_def toISO_def)

lemma seg_lord_build: "map seg_lord (buildWeightedSegments ps pd order w) = order"
  by (simp add: buildWeightedSegments_def seg_lord_segments_loop)

lemma ad_intervals: "map (ad_interval \<circ> mk_antar I l) segs = map seg_interval segs"
  by (simp add: ad_interval_def seg_interval_def mk_antar_fields)

lemma pd_intervals: "map (pd_interval \<circ> mk_pratyantar I l) segs = map seg_interval segs"
  by (simp add: pd_interval_def seg_interval_def mk_pratyantar_fields)

lemma antar_lords: "map ad_lord (antar (pushMD I l s e)) = rotateFromStart l"
  by (simp add: pushMD_fields mk_antar_fields comp_def seg_lord_build)

lemma pratyantar_lords:
  "a \<in> set (antar (pushMD I l s e)) \<Longrightarrow>
   map pd_lord (pratyantar a) = rotateFromStart (ad_lord a)"
  by (auto simp add: pushMD_fields mk_antar_fields mk_pratyantar_fields comp_def seg_lord_build)

lemma YEARS_pos_on: "\<forall>l \<in> set order. 0 < YEARS l"
  by (simp add: YEARS_pos)

lemma pushMD_antar_tiles:
  assumes "s \<le> e"
  shows "tiles s e (map ad_interval (antar (pushMD I l s e)))"
proof -
  have "tiles s (s + (e - s))
      (map seg_interval (buildWeightedSegments s (e - s) (rotateFromStart l) YEARS))"
    using assms by (intro buildWeightedSegments_tiles rotateFromStart_nonempty YEARS_pos_on) simp
  then show ?thesis by (simp add: pushMD_fields ad_intervals)
qed

lemma pushMD_pratyantar_tiles:
  assumes "s \<le> e" and "a \<in> set (antar (pushMD I l s e))"
  shows "tiles (ad_start a) (ad_end a) (map pd_interval (pratyantar a))"
proof -
  let ?segs = "buildWeightedSegments s (e - s) (rotateFromStart l) YEARS"
  obtain seg where seg: "seg \<in> set ?segs" and a: "a = mk_antar I l seg"
    using assms(2) by (auto simp add: pushMD_fields)
  have "0 \<le> e - s" using assms(1) by simp
  then have "\<forall>s' \<in> set ?segs. startMs s' + durationMs s' = endMs s' \<and> 0 \<le> durationMs s'"
    by (intro buildWeightedSegments_tiles rotateFromStart_nonempty YEARS_pos_on)
  then have d: "startMs seg + durationMs seg = endMs seg" "0 \<le> durationMs seg"
    using seg by auto
  have "tiles (startMs seg) (startMs seg + durationMs seg)
      (map seg_interval (buildWeightedSegments (startMs seg) (durationMs seg)
         (rotateFromStart (seg_lord seg)) YEARS))"
    using d(2) by (intro buildWeightedSegments_tiles rotateFromStart_nonempty YEARS_pos_on)
  then show ?thesis
    unfolding a by (simp add: mk_antar_fields pd_intervals d(1))
qed

subsection \<open>The loop over the Major periods\<close>

lemma md_loop_push:
  assumes "i < 9" and "rotateFromStart sl ! i = l"
  shows "md_loop I sl cap full i s =
     (if s + YEAR_MS * YEARS l > cap then [pushMD I l s cap]
      else pushMD I l s (s + YEAR_MS * YEARS l) #
           md_loop I sl cap full (i + 1) (s + YEAR_MS * YEARS l))"
  using assms by (subst md_loop.simps) (simp add: Let_def length_rotateFromStart)

lemma md_loop_wrap:
  assumes "\<not> i < 9"
  shows "md_loop I sl cap full i s =
     (if full then md_loop I sl cap False 1 s else md_loop I sl cap True 0 s)"
  using assms by (subst md_loop.simps) (simp add: Let_def length_rotateFromStart)

lemma md_loop_nodes:
  "m \<in> set (md_loop I sl cap full i s) \<Longrightarrow> s \<le> cap \<Longrightarrow>
   \<exists>l a b. m = pushMD I l a b \<and> s \<le> a \<and> a \<le> b \<and> b \<le> cap"
proof (induction I sl cap full i s rule: md_loop.induct)
  case (1 I sl cap full i s)
  show ?case
  proof (cases "i < 9")
    case False
    then show ?thesis
      using "1.prems" "1.IH"(2,3) md_loop_wrap [OF False, of I sl cap full s]
      by (auto simp add: length_rotateFromStart split: if_splits)
  next
    case True
    let ?l = "rotateFromStart sl ! i"
    let ?e = "s + YEAR_MS * YEARS ?l"
    have step: "s \<le> ?e" using YEAR_MS_pos YEARS_pos [of ?l] by simp
    note unfold = md_loop_push [OF True refl, of I sl cap full s]
    show ?thesis
    proof (cases "?e > cap")
      case True
      then have "m = pushMD I ?l s cap" using "1.prems"(1) unfold by simp
      then show ?thesis using "1.prems"(2) by blast
    next
      case False
      then consider "m = pushMD I ?l s ?e" | "m \<in> set (md_loop I sl cap full (i + 1) ?e)"
        using "1.prems"(1) unfold by auto
      then show ?thesis
      proof cases
        case 1
        then show ?thesis using step False by fastforce
      next
        case 2
        have "\<exists>l a b. m = pushMD I l a b \<and> ?e \<le> a \<and> a \<le> b \<and> b \<le> cap"
          using "1.IH"(1) [OF refl _ refl refl refl _ 2] True False
          by (simp add: length_rotateFromStart)
        then show ?thesis using step by force
      qed
    qed
  qed
qed

lemma md_interval_simps:
  "fst (md_interval m) = md_start m" "snd (md_interval m) = md_end m"
  by (simp_all add: md_interval_def)

lemma md_loop_end_le: "m \<in> set (md_loop I sl cap full i s) \<Longrightarrow> md_end m \<le> cap"
proof (induction I sl cap full i s rule: md_loop.induct)
  case (1 I sl cap full i s)
  show ?case
  proof (cases "i < 9")
    case False
    then show ?thesis
      using "1.prems" "1.IH"(2,3) md_loop_wrap [OF False, of I sl cap full s]
      by (auto simp add: length_rotateFromStart split: if_splits)
  next
    case True
    let ?l = "rotateFromStart sl ! i"
    let ?e = "s + YEAR_MS * YEARS ?l"
    note unfold = md_loop_push [OF True refl, of I sl cap full s]
    show ?thesis
    proof (cases "?e > cap")
      case True
      then show ?thesis using "1.prems" unfold by (simp add: pushMD_fields)
    next
      case False
      then consider "m = pushMD I ?l s ?e" | "m \<in> set (md_loop I sl cap full (i + 1) ?e)"
        using "1.prems" unfold by auto
      then show ?thesis
      proof cases
        case 1
        then show ?thesis using False by (simp add: pushMD_fields)
      next
        case 2
        show ?thesis
          using "1.IH"(1) [OF refl _ refl refl refl _ 2] True False
          by (simp add: length_rotateFromStart)
      qed
    qed
  qed
qed

text \<open>
  The nodes pushed by the loop start at its cursor, are contiguous and end at the
  horizon; their durations add up to what is left, and their natural (unclipped)
  durations reach strictly past the horizon.
\<close>

lemma md_loop_span:
  "md_loop I sl cap full i s \<noteq> [] \<and>
   md_start (hd (md_loop I sl cap full i s)) = s \<and>
   md_end (last (md_loop I sl cap full i s)) = cap \<and>
   contiguous (map md_interval (md_loop I sl cap full i s)) \<and>
   sum_list (map (\<lambda>m. md_end m - md_start m) (md_loop I sl cap full i s)) = cap - s \<and>
   cap < s + sum_list (map (\<lambda>m. YEAR_MS * years m) (md_loop I sl cap full i s))"
proof (induction I sl cap full i s rule: md_loop.induct)
  case (1 I sl cap full i s)
  show ?case
  proof (cases "i < 9")
    case False
    show ?thesis
    proof (cases full)
      case True
      then show ?thesis
        using "1.IH"(2) False md_loop_wrap [OF False, of I sl cap full s]
        by (simp add: length_rotateFromStart)
    next
      case nf: False
      then show ?thesis
        using "1.IH"(3) False md_loop_wrap [OF False, of I sl cap full s]
        by (simp add: length_rotateFromStart)
    qed
  next
    case True
    let ?l = "rotateFromStart sl ! i"
    let ?e = "s + YEAR_MS * YEARS ?l"
    let ?r = "md_loop I sl cap full (i + 1) ?e"
    note unfold = md_loop_push [OF True refl, of I sl cap full s]
    show ?thesis
    proof (cases "?e > cap")
      case True
      then show ?thesis using unfold by (simp add: pushMD_fields md_interval_simps)
    next
      case False
      have IH: "?r \<noteq> [] \<and> md_start (hd ?r) = ?e \<and> md_end (last ?r) = cap \<and>
          contiguous (map md_interval ?r) \<and>
          sum_list (map (\<lambda>m. md_end m - md_start m) ?r) = cap - ?e \<and>
          cap < ?e + sum_list (map (\<lambda>m. YEAR_MS * years m) ?r)"
        using "1.IH"(1) [OF refl _ refl refl refl] True False
        by (simp add: length_rotateFromStart)
      obtain x xs where r: "?r = x # xs" using IH by (cases ?r) auto
      have eq: "md_loop I sl cap full i s = pushMD I ?l s ?e # x # xs"
        using unfold False r by simp
      show ?thesis
        unfolding eq using IH unfolding r
        by (simp add: pushMD_fields md_interval_simps)
    qed
  qed
qed

subsection \<open>The whole run\<close>

lemma schedule_from_eq:
  assumes "sl = LORDS ! nat (index (nakFromLon lonDeg) mod 9)"
    and "cap = b + YEAR_MS * h"
    and "e1 = min (b + (YEAR_MS * YEARS sl - YEAR_MS * YEARS sl * fracElapsed (nakFromLon lonDeg))) cap"
  shows "schedule_from I b lonDeg h =
     Inr \<lparr>meta = \<lparr>birthUTC = b, meta_startLord = sl\<rparr>,
          sequence = pushMD I sl b e1 # (if e1 \<ge> cap then [] else md_loop I sl cap False 1 e1)\<rparr>"
  unfolding assms by (simp add: schedule_from_def start_lord_lookup Let_def toISO_def)

lemma accepted_iff:
  "accepted moment_tz p \<longleftrightarrow>
     (\<exists>d t z lonDeg b. birthDate p = Some d \<and> birthTime p = Some t \<and> timeZone p = Some z \<and>
        moonSiderealDeg p = Some lonDeg \<and> d \<noteq> [] \<and> t \<noteq> [] \<and> z \<noteq> [] \<and>
        moment_tz (d @ '' '' @ t) z = Some b)"
  by (auto simp add: accepted_def split: option.splits)

lemma computeVimshottari_accepted:
  assumes "birthDate p = Some d" "birthTime p = Some t" "timeZone p = Some z"
    "moonSiderealDeg p = Some lonDeg" "d \<noteq> []" "t \<noteq> []" "z \<noteq> []"
    "moment_tz (d @ '' '' @ t) z = Some b"
  shows "computeVimshottari moment_tz I p = schedule_from I b lonDeg (horizonYears p)"
  using assms by (simp add: computeVimshottari_def)

lemma computeVimshottari_Inr:
  assumes "computeVimshottari moment_tz I p = Inr out"
  shows "\<exists>d t z lonDeg b. birthDate p = Some d \<and> birthTime p = Some t \<and> timeZone p = Some z \<and>
        moonSiderealDeg p = Some lonDeg \<and> d \<noteq> [] \<and> t \<noteq> [] \<and> z \<noteq> [] \<and>
        moment_tz (d @ '' '' @ t) z = Some b \<and>
        schedule_from I b lonDeg (horizonYears p) = Inr out"
proof -
  have g: "\<not> falsy (birthDate p)" "\<not> falsy (birthTime p)" "\<not> falsy (timeZone p)"
    "moonSiderealDeg p \<noteq> None"
    using assms by (auto simp add: computeVimshottari_def split: if_splits)
  obtain d where d: "birthDate p = Some d" "d \<noteq> []" using g(1) by (cases "birthDate p") auto
  obtain t where t: "birthTime p = Some t" "t \<noteq> []" using g(2) by (cases "birthTime p") auto
  obtain z where z: "timeZone p = Some z" "z \<noteq> []" using g(3) by (cases "timeZone p") auto
  obtain lonDeg where l: "moonSiderealDeg p = Some lonDeg" using g(4) by auto
  obtain b where b: "moment_tz (d @ '' '' @ t) z = Some b"
    using assms d t z l by (cases "moment_tz (d @ '' '' @ t) z") (auto simp add: computeVimshottari_def)
  have "schedule_from I b lonDeg (horizonYears p) = Inr out"
    using assms d t z l b by (simp add: computeVimshottari_def)
  then show ?thesis using d t z l b by blast
qed

lemma computeVimshottari_returns:
  "accepted moment_tz p \<longleftrightarrow> (\<exists>out. computeVimshottari moment_tz I p = Inr out)"
proof
  assume "accepted moment_tz p"
  then obtain d t z lonDeg b where h: "birthDate p = Some d" "birthTime p = Some t"
    "timeZone p = Some z" "moonSiderealDeg p = Some lonDeg" "d \<noteq> []" "t \<noteq> []" "z \<noteq> []"
    "moment_tz (d @ '' '' @ t) z = Some b"
    unfolding accepted_iff by blast
  have "computeVimshottari moment_tz I p = schedule_from I b lonDeg (horizonYears p)"
    using h by (simp add: computeVimshottari_def)
  then show "\<exists>out. computeVimshottari moment_tz I p = Inr out"
    unfolding schedule_from_eq [OF refl refl refl] by simp
next
  assume "\<exists>out. computeVimshottari moment_tz I p = Inr out"
  then obtain out where "computeVimshottari moment_tz I p = Inr out" by blast
  from computeVimshottari_Inr [OF this] show "accepted moment_tz p"
    unfolding accepted_iff by blast
qed

lemma example_accepted: "accepted example_tz (example_payload lonDeg horizon)"
  by (simp add: accepted_def example_tz_def example_payload_def)

lemma run_shape:
  assumes "computeVimshottari moment_tz I p = Inr out"
  obtains d t z lonDeg b sl cap e1 where
    "birthDate p = Some d" "birthTime p = Some t" "timeZone p = Some z"
    "moment_tz (d @ '' '' @ t) z = Some b"
    "moonSiderealDeg p = Some lonDeg"
    "sl = LORDS ! nat (index (nakFromLon lonDeg) mod 9)"
    "cap = b + YEAR_MS * horizonYears p"
    "e1 = min (b + (YEAR_MS * YEARS sl - YEAR_MS * YEARS sl * fracElapsed (nakFromLon lonDeg))) cap"
    "out = \<lparr>meta = \<lparr>birthUTC = b, meta_startLord = sl\<rparr>,
            sequence = pushMD I sl b e1 # (if e1 \<ge> cap then [] else md_loop I sl cap False 1 e1)\<rparr>"
proof -
  obtain d t z lonDeg b where h: "birthDate p = Some d" "birthTime p = Some t"
    "timeZone p = Some z" "moonSiderealDeg p = Some lonDeg"
    "moment_tz (d @ '' '' @ t) z = Some b"
    "schedule_from I b lonDeg (horizonYears p) = Inr out"
    using computeVimshottari_Inr [OF assms] by blast
  show thesis
    using that [OF h(1,2,3,5,4) refl refl refl] h(6)
    unfolding schedule_from_eq [OF refl refl refl] by simp
qed

lemma anchor_remaining_pos:
  "0 < YEAR_MS * YEARS sl - YEAR_MS * YEARS sl * fracElapsed (nakFromLon lonDeg)"
proof -
  have "fracElapsed (nakFromLon lonDeg) < 1" using nakFromLon_range [of lonDeg] by simp
  moreover have "0 < YEAR_MS * YEARS sl" using YEAR_MS_pos YEARS_pos [of sl] by simp
  ultimately have "YEAR_MS * YEARS sl * fracElapsed (nakFromLon lonDeg) < YEAR_MS * YEARS sl * 1"
    by (intro mult_strict_left_mono)
  then show ?thesis by simp
qed

lemma run_nodes:
  assumes "computeVimshottari moment_tz I p = Inr out" and "m \<in> set (sequence out)"
  shows "\<exists>l a b. m = pushMD I l a b \<and> (0 \<le> horizonYears p \<longrightarrow> a \<le> b)"
proof -
  from assms(1) obtain d t z lonDeg b sl cap e1 where
    cap: "cap = b + YEAR_MS * horizonYears p" and
    e1: "e1 = min (b + (YEAR_MS * YEARS sl - YEAR_MS * YEARS sl * fracElapsed (nakFromLon lonDeg))) cap" and
    out: "out = \<lparr>meta = \<lparr>birthUTC = b, meta_startLord = sl\<rparr>,
            sequence = pushMD I sl b e1 # (if e1 \<ge> cap then [] else md_loop I sl cap False 1 e1)\<rparr>"
    by (rule run_shape)
  have le: "e1 \<le> cap" using e1 by simp
  consider "m = pushMD I sl b e1" | "\<not> e1 \<ge> cap" "m \<in> set (md_loop I sl cap False 1 e1)"
    using assms(2) out by (auto split: if_splits)
  then show ?thesis
  proof cases
    case 1
    have "0 \<le> horizonYears p \<longrightarrow> b \<le> e1"
    proof
      assume "0 \<le> horizonYears p"
      then have "b \<le> cap" using cap YEAR_MS_pos by simp
      then show "b \<le> e1" using e1 anchor_remaining_pos [of sl lonDeg] by simp
    qed
    then show ?thesis using 1 by blast
  next
    case 2
    from md_loop_nodes [OF 2(2) le] show ?thesis by blast
  qed
qed

text \<open>
  C5. For every lord of the fixed set, \<open>rotateFromStart\<close> returns the nine lords
  starting at that lord and wrapping through the fixed cycle once, with no repeats and
  no omissions; and in a built tree the child lords of every Major node and of every Sub
  node are the cycle rotated to start at the node's own lord.
\<close>

theorem rotation_from_own_lord:
  "l \<in> set LORDS \<and>
   length (rotateFromStart l) = 9 \<and>
   hd (rotateFromStart l) = l \<and>
   distinct (rotateFromStart l) \<and>
   set (rotateFromStart l) = set LORDS \<and>
   rotateFromStart l = rotate (nat (indexOf LORDS l)) LORDS \<and>
   (computeVimshottari moment_tz I p = Inr out \<longrightarrow>
      (\<forall>m \<in> set (sequence out).
         map ad_lord (antar m) = rotateFromStart (md_lord m) \<and>
         (\<forall>a \<in> set (antar m). map pd_lord (pratyantar a) = rotateFromStart (ad_lord a))))"
proof -
  have r: "rotateFromStart l = rotate (nat (indexOf LORDS l)) LORDS"
    by (rule rotateFromStart_rotate)
  have 1: "l \<in> set LORDS" by (simp add: set_LORDS)
  have 2: "hd (rotateFromStart l) = l" by (cases l) (simp_all add: rotateFromStart_cases)
  have 3: "distinct (rotateFromStart l)" unfolding r by (simp add: distinct_LORDS)
  have 4: "set (rotateFromStart l) = set LORDS" unfolding r by simp
  have 5: "\<forall>m \<in> set (sequence out).
         map ad_lord (antar m) = rotateFromStart (md_lord m) \<and>
         (\<forall>a \<in> set (antar m). map pd_lord (pratyantar a) = rotateFromStart (ad_lord a))"
    if run: "computeVimshottari moment_tz I p = Inr out"
  proof
    fix m assume "m \<in> set (sequence out)"
    then obtain k a b where m: "m = pushMD I k a b" using run_nodes [OF run] by blast
    show "map ad_lord (antar m) = rotateFromStart (md_lord m) \<and>
         (\<forall>a \<in> set (antar m). map pd_lord (pratyantar a) = rotateFromStart (ad_lord a))"
      unfolding m using antar_lords [of I k a b] pratyantar_lords [of _ I k a b]
      by (simp add: pushMD_fields(1))
  qed
  show ?thesis using 1 2 3 4 5 r length_rotateFromStart [of l] by blast
qed

theorem rotation_from_own_lord_witness:
  "rotateFromStart Saturn = [Saturn, Mercury, Ketu, Venus, Sun, Moon, Mars, Rahu, Jupiter] \<and>
   hd (rotateFromStart Saturn) = Saturn \<and>
   (\<exists>out. computeVimshottari example_tz example_table (example_payload 10 None) = Inr out \<and>
      sequence out \<noteq> [] \<and>
      map ad_lord (antar (hd (sequence out))) = rotateFromStart (md_lord (hd (sequence out))))"
proof -
  obtain out where
    run: "computeVimshottari example_tz example_table (example_payload 10 None) = Inr out"
    using computeVimshottari_returns [of example_tz "example_payload 10 None" example_table]
      example_accepted by blast
  from run have ne: "sequence out \<noteq> []" by (rule run_shape) simp
  then have mem: "hd (sequence out) \<in> set (sequence out)" by simp
  note T = rotation_from_own_lord
      [of Saturn example_tz example_table "example_payload 10 None" out]
  from T have a: "hd (rotateFromStart Saturn) = Saturn" by blast
  from T run mem have b:
    "map ad_lord (antar (hd (sequence out))) = rotateFromStart (md_lord (hd (sequence out)))"
    by blast
  have c: "rotateFromStart Saturn = [Saturn, Mercury, Ketu, Venus, Sun, Moon, Mars, Rahu, Jupiter]"
    by (simp add: rotateFromStart_cases)
  show ?thesis using a b c run ne by blast
qed

subsection \<open>Children of a node\<close>

lemma segments_loop_contiguous:
  "contiguous (map seg_interval (segments_loop ps pd w t order c))"
proof (induction order arbitrary: c)
  case Nil
  then show ?case by simp
next
  case (Cons l rest)
  show ?case
  proof (cases rest)
    case Nil
    then show ?thesis by (simp add: Let_def)
  next
    case (Cons l' rest')
    have "contiguous (map seg_interval (segments_loop ps pd w t (l' # rest') (c + pd * (w l / t))))"
      using Cons.IH [of "c + pd * (w l / t)"] Cons by simp
    then show ?thesis using Cons by (simp add: Let_def seg_interval_simps)
  qed
qed

lemma buildWeightedSegments_chain:
  assumes "order \<noteq> []"
  shows "buildWeightedSegments ps pd order w \<noteq> []"
    and "startMs (hd (buildWeightedSegments ps pd order w)) = ps"
    and "contiguous (map seg_interval (buildWeightedSegments ps pd order w))"
  using assms
  by (simp_all add: buildWeightedSegments_def segments_loop_nonempty segments_loop_hd
      segments_loop_contiguous)

lemma buildWeightedSegments_end:
  "s \<in> set (buildWeightedSegments ps pd order w) \<Longrightarrow> endMs s = startMs s + durationMs s"
  by (simp add: buildWeightedSegments_def segments_loop_end)

lemma tiles_sorted:
  "tiles s e ivs \<Longrightarrow> sorted (map fst ivs) \<and> non_overlapping ivs"
  by (simp add: tiles_def)

lemma ad_starts:
  "map fst (map ad_interval xs) = map ad_start xs"
  "map (fst \<circ> ad_interval) xs = map ad_start xs"
  by (simp_all add: ad_interval_def comp_def)

lemma pd_starts:
  "map fst (map pd_interval xs) = map pd_start xs"
  "map (fst \<circ> pd_interval) xs = map pd_start xs"
  by (simp_all add: pd_interval_def comp_def)

lemma pushMD_antar_chain:
  "antar (pushMD I l s e) \<noteq> [] \<and>
   ad_start (hd (antar (pushMD I l s e))) = s \<and>
   contiguous (map ad_interval (antar (pushMD I l s e)))"
proof -
  let ?segs = "buildWeightedSegments s (e - s) (rotateFromStart l) YEARS"
  note C = buildWeightedSegments_chain [OF rotateFromStart_nonempty, of s "e - s" l YEARS]
  have "ad_start (hd (map (mk_antar I l) ?segs)) = s"
    using C(1,2) by (simp add: hd_map mk_antar_fields)
  moreover have "contiguous (map ad_interval (map (mk_antar I l) ?segs))"
    using C(3) by (simp add: ad_intervals)
  ultimately show ?thesis using C(1) by (simp add: pushMD_fields)
qed

lemma pushMD_antar_sorted:
  assumes "s \<le> e"
  shows "sorted (map ad_start (antar (pushMD I l s e))) \<and>
    non_overlapping (map ad_interval (antar (pushMD I l s e)))"
  using tiles_sorted [OF pushMD_antar_tiles [OF assms, of I l]] by (simp add: ad_starts)

lemma pushMD_pratyantar_chain:
  assumes "a \<in> set (antar (pushMD I l s e))"
  shows "pratyantar a \<noteq> [] \<and>
    pd_start (hd (pratyantar a)) = ad_start a \<and>
    contiguous (map pd_interval (pratyantar a)) \<and>
    (ad_start a \<le> ad_end a \<longrightarrow>
       sorted (map pd_start (pratyantar a)) \<and>
       non_overlapping (map pd_interval (pratyantar a)))"
proof -
  let ?segs = "buildWeightedSegments s (e - s) (rotateFromStart l) YEARS"
  obtain seg where seg: "seg \<in> set ?segs" and a: "a = mk_antar I l seg"
    using assms by (auto simp add: pushMD_fields)
  let ?sub = "buildWeightedSegments (startMs seg) (durationMs seg)
      (rotateFromStart (seg_lord seg)) YEARS"
  note C = buildWeightedSegments_chain
    [OF rotateFromStart_nonempty, of "startMs seg" "durationMs seg" "seg_lord seg" YEARS]
  have 1: "pratyantar a \<noteq> []" unfolding a using C(1) by (simp add: mk_antar_fields)
  have 2: "pd_start (hd (pratyantar a)) = ad_start a"
    unfolding a using C(1,2) by (simp add: mk_antar_fields hd_map mk_pratyantar_fields)
  have 3: "contiguous (map pd_interval (pratyantar a))"
    unfolding a using C(3) by (simp add: mk_antar_fields pd_intervals)
  have 4: "sorted (map pd_start (pratyantar a)) \<and>
      non_overlapping (map pd_interval (pratyantar a))"
    if le: "ad_start a \<le> ad_end a"
  proof -
    have "endMs seg = startMs seg + durationMs seg"
      using seg by (rule buildWeightedSegments_end)
    then have "0 \<le> durationMs seg" using le unfolding a by (simp add: mk_antar_fields)
    then have "tiles (startMs seg) (startMs seg + durationMs seg) (map seg_interval ?sub)"
      by (intro buildWeightedSegments_tiles rotateFromStart_nonempty YEARS_pos_on)
    then have "sorted (map fst (map seg_interval ?sub)) \<and> non_overlapping (map seg_interval ?sub)"
      by (rule tiles_sorted)
    moreover have "map pd_interval (pratyantar a) = map seg_interval ?sub"
      unfolding a by (simp add: mk_antar_fields pd_intervals)
    ultimately show ?thesis using pd_starts [of "pratyantar a"] by simp
  qed
  show ?thesis using 1 2 3 4 by blast
qed

subsection \<open>Runs on the example inputs\<close>

lemmas md_loop_eval = md_loop_push [OF _ refl]

lemmas run_eval = computeVimshottari_def example_payload_def example_tz_def horizonYears_def
  schedule_from_eq [OF refl refl refl] LORDS_def YEAR_MS_def md_loop_eval md_loop_wrap
  rotateFromStart_cases

lemmas nak_eval = nakFromLon_def normalize360_def js_rem_def js_trunc_def NAK_LEN_DEG_def Let_def

lemma nakFromLon_examples:
  "index (nakFromLon 0) = 0" "fracElapsed (nakFromLon 0) = 0"
  "index (nakFromLon 10) = 0" "fracElapsed (nakFromLon 10) = 3 / 4"
  "index (nakFromLon 30) = 2" "fracElapsed (nakFromLon 30) = 1 / 4"
  "index (nakFromLon (130 / 3)) = 3" "fracElapsed (nakFromLon (130 / 3)) = 1 / 4"
  "index (nakFromLon 400) = 3" "fracElapsed (nakFromLon 400) = 0"
  by (simp_all add: nak_eval)

text \<open>The scenario of the specification: the Moon period, a quarter elapsed, one year.\<close>

lemma example_moon_run:
  "computeVimshottari example_tz example_table (example_payload (130 / 3) (Some 1)) =
     Inr \<lparr>meta = \<lparr>birthUTC = 946684800000, meta_startLord = Moon\<rparr>,
          sequence = [pushMD example_table Moon 946684800000 (946684800000 + YEAR_MS)]\<rparr>"
  by (simp add: run_eval nakFromLon_examples)

lemma run_sequence_nonempty:
  assumes "computeVimshottari moment_tz I p = Inr out"
  shows "sequence out \<noteq> []"
  using assms by (rule run_shape) simp

text \<open>
  A horizon of minus one year is accepted. The anchor period then runs backwards from
  the reference instant, and so do its Sub periods.
\<close>

lemma example_negative_run:
  "computeVimshottari example_tz example_table (example_payload 10 (Some (- 1))) =
     Inr \<lparr>meta = \<lparr>birthUTC = 946684800000, meta_startLord = Ketu\<rparr>,
          sequence = [pushMD example_table Ketu 946684800000 (946684800000 - YEAR_MS)]\<rparr>"
  by (simp add: run_eval nakFromLon_examples)

lemma example_negative_starts:
  "map ad_start (antar (pushMD example_table Ketu 946684800000 (946684800000 - YEAR_MS))) =
     [946684800000, 944843977800, 939584485800, 938006638200, 935376892200,
      933536070000, 928802527200, 924594933600, 919598416200]"
  by (simp add: pushMD_fields mk_antar_fields comp_def buildWeightedSegments_def
      rotateFromStart_cases Let_def YEAR_MS_def)

text \<open>
  The claim C2 fails where the code builds a schedule for a negative horizon: the Sub
  children of the Major node are not sorted by start, and the node's end lies before
  its start.
\<close>

theorem children_unsorted_counterexample:
  "md_end (hd (sequence_of (computeVimshottari example_tz example_table
      (example_payload 10 (Some (- 1)))))) <
   md_start (hd (sequence_of (computeVimshottari example_tz example_table
      (example_payload 10 (Some (- 1)))))) \<and>
   ad_start (antar (hd (sequence_of (computeVimshottari example_tz example_table
      (example_payload 10 (Some (- 1)))))) ! 1) <
   ad_start (antar (hd (sequence_of (computeVimshottari example_tz example_table
      (example_payload 10 (Some (- 1)))))) ! 0) \<and>
   \<not> sorted (map ad_start (antar (hd (sequence_of (computeVimshottari example_tz example_table
      (example_payload 10 (Some (- 1))))))))"
proof -
  let ?m = "pushMD example_table Ketu 946684800000 (946684800000 - YEAR_MS)"
  have m: "hd (sequence_of (computeVimshottari example_tz example_table
      (example_payload 10 (Some (- 1))))) = ?m"
    by (simp add: sequence_of_def example_negative_run)
  have len: "length (antar ?m) = 9"
    using arg_cong [OF example_negative_starts, of length] by simp
  have 1: "md_end ?m < md_start ?m"
    by (simp add: pushMD_fields YEAR_MS_def)
  have "ad_start (antar ?m ! 1) = map ad_start (antar ?m) ! 1"
    "ad_start (antar ?m ! 0) = map ad_start (antar ?m) ! 0"
    using len by simp_all
  then have 2: "ad_start (antar ?m ! 1) < ad_start (antar ?m ! 0)"
    unfolding example_negative_starts by simp
  have 3: "\<not> sorted (map ad_start (antar ?m))"
    unfolding example_negative_starts by simp
  show ?thesis unfolding m using 1 2 3 by blast
qed

text \<open>
  C2, amended. For every node with children in a built schedule, the Sub children of
  every Major node and the SubSub children of every Sub node, a clipped last Major
  period included: the children are contiguous, each starting where the one before it
  ends, and the first child starts at the parent's start; when the parent's end is
  not before its start, the children are sorted by start and do not overlap.
\<close>

theorem children_contiguous_from_parent_start:
  assumes "computeVimshottari moment_tz I p = Inr out" and "m \<in> set (sequence out)"
  shows "antar m \<noteq> [] \<and>
    ad_start (hd (antar m)) = md_start m \<and>
    contiguous (map ad_interval (antar m)) \<and>
    (md_start m \<le> md_end m \<longrightarrow>
       sorted (map ad_start (antar m)) \<and> non_overlapping (map ad_interval (antar m))) \<and>
    (\<forall>a \<in> set (antar m).
       pratyantar a \<noteq> [] \<and>
       pd_start (hd (pratyantar a)) = ad_start a \<and>
       contiguous (map pd_interval (pratyantar a)) \<and>
       (ad_start a \<le> ad_end a \<longrightarrow>
          sorted (map pd_start (pratyantar a)) \<and>
          non_overlapping (map pd_interval (pratyantar a))))"
proof -
  obtain l s e where m: "m = pushMD I l s e"
    using run_nodes [OF assms] by blast
  have 1: "antar m \<noteq> [] \<and> ad_start (hd (antar m)) = md_start m \<and>
      contiguous (map ad_interval (antar m))"
    unfolding m using pushMD_antar_chain [of I l s e] by (simp add: pushMD_fields(2))
  have 2: "md_start m \<le> md_end m \<longrightarrow>
      sorted (map ad_start (antar m)) \<and> non_overlapping (map ad_interval (antar m))"
    unfolding m using pushMD_antar_sorted [of s e I l] by (simp add: pushMD_fields(2,3))
  have 3: "\<forall>a \<in> set (antar m).
       pratyantar a \<noteq> [] \<and>
       pd_start (hd (pratyantar a)) = ad_start a \<and>
       contiguous (map pd_interval (pratyantar a)) \<and>
       (ad_start a \<le> ad_end a \<longrightarrow>
          sorted (map pd_start (pratyantar a)) \<and>
          non_overlapping (map pd_interval (pratyantar a)))"
    unfolding m using pushMD_pratyantar_chain [of _ I l s e] by blast
  show ?thesis using 1 2 3 by blast
qed

theorem children_contiguous_from_parent_start_witness:
  "antar (pushMD example_table Moon 946684800000 (946684800000 + YEAR_MS)) \<noteq> [] \<and>
   ad_start (hd (antar (pushMD example_table Moon 946684800000 (946684800000 + YEAR_MS)))) =
     946684800000 \<and>
   contiguous (map ad_interval
     (antar (pushMD example_table Moon 946684800000 (946684800000 + YEAR_MS)))) \<and>
   sorted (map ad_start
     (antar (pushMD example_table Moon 946684800000 (946684800000 + YEAR_MS)))) \<and>
   pd_start (hd (pratyantar (hd
     (antar (pushMD example_table Moon 946684800000 (946684800000 + YEAR_MS)))))) =
     946684800000"
proof -
  let ?m = "pushMD example_table Moon 946684800000 (946684800000 + YEAR_MS)"
  let ?out = "\<lparr>meta = \<lparr>birthUTC = 946684800000, meta_startLord = Moon\<rparr>, sequence = [?m]\<rparr>"
  have mem: "?m \<in> set (sequence ?out)" by simp
  have le: "md_start ?m \<le> md_end ?m"
    using YEAR_MS_pos by (simp add: pushMD_fields(2,3))
  have s: "md_start ?m = 946684800000" by (simp add: pushMD_fields(2))
  note T = children_contiguous_from_parent_start [OF example_moon_run mem]
  from T have ne: "antar ?m \<noteq> []" by blast
  then have hmem: "hd (antar ?m) \<in> set (antar ?m)" by simp
  from T s have 1: "ad_start (hd (antar ?m)) = 946684800000" by simp
  from T have 2: "contiguous (map ad_interval (antar ?m))" by blast
  from T le have 3: "sorted (map ad_start (antar ?m))" by blast
  from T hmem have "pd_start (hd (pratyantar (hd (antar ?m)))) = ad_start (hd (antar ?m))"
    by blast
  then have 4: "pd_start (hd (pratyantar (hd (antar ?m)))) = 946684800000"
    using 1 by simp
  show ?thesis using ne 1 2 3 4 by blast
qed

subsection \<open>The horizon and the anchor\<close>

lemma run_reference:
  assumes "computeVimshottari moment_tz I p = Inr out"
  shows "moment_tz (the (birthDate p) @ '' '' @ the (birthTime p)) (the (timeZone p)) =
    Some (birthUTC (meta out))"
  using assms by (rule run_shape) simp

text \<open>
  C3. The horizon is the \<open>totalYears\<close> of the payload, 120 years when the payload leaves
  it out. In every returned schedule the final instant is the horizon instant
  \<open>referenceInstant + totalYears * yearLength\<close>, and no Major period ends after it. The
  Major periods are contiguous from the reference instant, so their total span is
  \<open>totalYears * yearLength\<close>; it is the minimum of that and the natural total duration,
  the unclipped lengths of the emitted periods, which always reaches the horizon
  because the loop wraps through the cycle until it does.
\<close>

theorem horizon_respected:
  assumes "computeVimshottari moment_tz I p = Inr out"
    and "moonSiderealDeg p = Some lonDeg"
    and "horizon = (case totalYears p of None \<Rightarrow> 120 | Some y \<Rightarrow> y)"
  shows "moment_tz (the (birthDate p) @ '' '' @ the (birthTime p)) (the (timeZone p)) =
       Some (birthUTC (meta out)) \<and>
     sequence out \<noteq> [] \<and>
     md_start (hd (sequence out)) = birthUTC (meta out) \<and>
     contiguous (map md_interval (sequence out)) \<and>
     (\<forall>m \<in> set (sequence out). md_end m \<le> birthUTC (meta out) + horizon * YEAR_MS) \<and>
     md_end (last (sequence out)) = birthUTC (meta out) + horizon * YEAR_MS \<and>
     sum_list (map (\<lambda>m. md_end m - md_start m) (sequence out)) = horizon * YEAR_MS \<and>
     sum_list (map (\<lambda>m. md_end m - md_start m) (sequence out)) =
       min (YEARS (meta_startLord (meta out)) * YEAR_MS * (1 - fracElapsed (nakFromLon lonDeg)) +
            sum_list (map (\<lambda>m. YEAR_MS * years m) (tl (sequence out))))
           (horizon * YEAR_MS)"
proof -
  note run = assms(1)
  have h: "horizonYears p = horizon" using assms(3) by (simp add: horizonYears_def)
  from run obtain d t z lonDeg' b sl cap e1 where
    lon: "moonSiderealDeg p = Some lonDeg'" and
    cap: "cap = b + YEAR_MS * horizonYears p" and
    e1: "e1 = min (b + (YEAR_MS * YEARS sl - YEAR_MS * YEARS sl * fracElapsed (nakFromLon lonDeg'))) cap" and
    out: "out = \<lparr>meta = \<lparr>birthUTC = b, meta_startLord = sl\<rparr>,
            sequence = pushMD I sl b e1 # (if e1 \<ge> cap then [] else md_loop I sl cap False 1 e1)\<rparr>"
    by (rule run_shape)
  have lonDeg: "lonDeg' = lonDeg" using lon assms(2) by simp
  let ?rem = "YEAR_MS * YEARS sl - YEAR_MS * YEARS sl * fracElapsed (nakFromLon lonDeg)"
  have rem: "YEARS sl * YEAR_MS * (1 - fracElapsed (nakFromLon lonDeg)) = ?rem"
    by (simp add: algebra_simps)
  have le: "e1 \<le> cap" using e1 by simp
  have capeq: "b + horizon * YEAR_MS = cap" using cap h by (simp add: mult.commute)
  have hor: "horizon * YEAR_MS = cap - b" using cap h by (simp add: mult.commute)
  have body: "sequence out \<noteq> [] \<and>
     md_start (hd (sequence out)) = b \<and>
     contiguous (map md_interval (sequence out)) \<and>
     (\<forall>m \<in> set (sequence out). md_end m \<le> cap) \<and>
     md_end (last (sequence out)) = cap \<and>
     sum_list (map (\<lambda>m. md_end m - md_start m) (sequence out)) = cap - b \<and>
     cap - b \<le> ?rem + sum_list (map (\<lambda>m. YEAR_MS * years m) (tl (sequence out)))"
  proof (cases "e1 \<ge> cap")
    case True
    then have e: "e1 = cap" using le by simp
    have "cap \<le> b + ?rem" using True e1 lonDeg by simp
    then show ?thesis using True out by (simp add: pushMD_fields md_interval_simps e)
  next
    case False
    let ?r = "md_loop I sl cap False 1 e1"
    have e: "e1 = b + ?rem" using False e1 lonDeg by (simp add: min_def split: if_splits)
    have seq: "sequence out = pushMD I sl b e1 # ?r" using False out by simp
    note S = md_loop_span [of I sl cap False 1 e1]
    obtain x xs where r: "?r = x # xs" using S by (cases ?r) auto
    have ends: "\<forall>m \<in> set (sequence out). md_end m \<le> cap"
      unfolding seq using le md_loop_end_le [of _ I sl cap False 1 e1]
      by (auto simp add: pushMD_fields)
    have others: "sequence out \<noteq> [] \<and>
       md_start (hd (sequence out)) = b \<and>
       contiguous (map md_interval (sequence out)) \<and>
       md_end (last (sequence out)) = cap \<and>
       sum_list (map (\<lambda>m. md_end m - md_start m) (sequence out)) = cap - b \<and>
       cap - b \<le> ?rem + sum_list (map (\<lambda>m. YEAR_MS * years m) (tl (sequence out)))"
      unfolding seq using S e unfolding r
      by (simp add: pushMD_fields md_interval_simps)
    show ?thesis using ends others by blast
  qed
  show ?thesis
    using run_reference [OF run] body
    unfolding capeq hor by (simp add: out rem min_def)
qed

text \<open>A horizon of 27 years with the Moon at longitude 0: Ketu, Venus and a third node.\<close>

lemma example_27_run:
  "computeVimshottari example_tz example_table (example_payload 0 (Some 27)) =
     Inr \<lparr>meta = \<lparr>birthUTC = 946684800000, meta_startLord = Ketu\<rparr>,
          sequence =
            [pushMD example_table Ketu 946684800000 (946684800000 + 7 * YEAR_MS),
             pushMD example_table Venus (946684800000 + 7 * YEAR_MS)
               (946684800000 + 27 * YEAR_MS),
             pushMD example_table Sun (946684800000 + 27 * YEAR_MS)
               (946684800000 + 27 * YEAR_MS)]\<rparr>"
  by (simp add: run_eval nakFromLon_examples)

theorem horizon_respected_witness:
  "md_end (last (sequence_of
     (computeVimshottari example_tz example_table (example_payload 0 (Some 27))))) =
     946684800000 + 27 * YEAR_MS \<and>
   sum_list (map (\<lambda>m. md_end m - md_start m) (sequence_of
     (computeVimshottari example_tz example_table (example_payload 0 (Some 27))))) =
     27 * YEAR_MS \<and>
   (\<exists>out. computeVimshottari example_tz example_table (example_payload 10 None) = Inr out \<and>
      birthUTC (meta out) = 946684800000 \<and>
      md_start (hd (sequence out)) = 946684800000 \<and>
      md_end (last (sequence out)) = 946684800000 + 120 * YEAR_MS \<and>
      sum_list (map (\<lambda>m. md_end m - md_start m) (sequence out)) = 120 * YEAR_MS)"
proof -
  let ?p = "example_payload 0 (Some 27)"
  let ?out = "\<lparr>meta = \<lparr>birthUTC = 946684800000, meta_startLord = Ketu\<rparr>,
          sequence =
            [pushMD example_table Ketu 946684800000 (946684800000 + 7 * YEAR_MS),
             pushMD example_table Venus (946684800000 + 7 * YEAR_MS)
               (946684800000 + 27 * YEAR_MS),
             pushMD example_table Sun (946684800000 + 27 * YEAR_MS)
               (946684800000 + 27 * YEAR_MS)]\<rparr>"
  have l: "moonSiderealDeg ?p = Some 0" by (simp add: example_payload_def)
  have h: "27 = (case totalYears ?p of None \<Rightarrow> 120 | Some y \<Rightarrow> y)"
    by (simp add: example_payload_def)
  have s: "sequence_of (computeVimshottari example_tz example_table ?p) = sequence ?out"
    by (simp add: sequence_of_def example_27_run)
  have b: "birthUTC (meta ?out) = 946684800000" by simp
  note T = horizon_respected [OF example_27_run l h]
  from T have "md_end (last (sequence ?out)) = birthUTC (meta ?out) + 27 * YEAR_MS"
    by blast
  then have 1: "md_end (last (sequence_of (computeVimshottari example_tz example_table ?p))) =
      946684800000 + 27 * YEAR_MS"
    unfolding s b .
  from T have "sum_list (map (\<lambda>m. md_end m - md_start m) (sequence ?out)) = 27 * YEAR_MS"
    by blast
  then have 2: "sum_list (map (\<lambda>m. md_end m - md_start m)
      (sequence_of (computeVimshottari example_tz example_table ?p))) = 27 * YEAR_MS"
    unfolding s .
  let ?q = "example_payload 10 None"
  obtain out where run: "computeVimshottari example_tz example_table ?q = Inr out"
    using computeVimshottari_returns [of example_tz ?q example_table] example_accepted by blast
  have lq: "moonSiderealDeg ?q = Some 10" by (simp add: example_payload_def)
  have hq: "120 = (case totalYears ?q of None \<Rightarrow> 120 | Some y \<Rightarrow> y)"
    by (simp add: example_payload_def)
  have r: "example_tz (the (birthDate ?q) @ '' '' @ the (birthTime ?q)) (the (timeZone ?q)) =
      Some 946684800000"
    by (simp add: example_tz_def)
  from horizon_respected [OF run lq hq]
  have 3: "birthUTC (meta out) = 946684800000 \<and>
      md_start (hd (sequence out)) = 946684800000 \<and>
      md_end (last (sequence out)) = 946684800000 + 120 * YEAR_MS \<and>
      sum_list (map (\<lambda>m. md_end m - md_start m) (sequence out)) = 120 * YEAR_MS"
    unfolding r by auto
  show ?thesis using 1 2 3 run by blast
qed

subsection \<open>Duration fields of a Major node\<close>

lemma example_ketu_first:
  "hd (sequence_of (computeVimshottari example_tz example_table (example_payload 10 None))) =
     pushMD example_table Ketu 946684800000 (946684800000 + 7 * YEAR_MS / 4)"
  by (simp add: sequence_of_def run_eval nakFromLon_examples)

text \<open>
  The claim C8 fails for the \<open>years\<close> field: the partial anchor period of Ketu, three
  quarters elapsed, lasts 7/4 years and is reported with \<open>years = 7\<close>.
\<close>

theorem major_years_counterexample:
  "years (hd (sequence_of
      (computeVimshottari example_tz example_table (example_payload 10 None)))) = 7 \<and>
   (md_end (hd (sequence_of
      (computeVimshottari example_tz example_table (example_payload 10 None)))) -
    md_start (hd (sequence_of
      (computeVimshottari example_tz example_table (example_payload 10 None))))) / YEAR_MS = 7 / 4 \<and>
   years (hd (sequence_of
      (computeVimshottari example_tz example_table (example_payload 10 None)))) \<noteq>
   (md_end (hd (sequence_of
      (computeVimshottari example_tz example_table (example_payload 10 None)))) -
    md_start (hd (sequence_of
      (computeVimshottari example_tz example_table (example_payload 10 None))))) / YEAR_MS"
  unfolding example_ketu_first by (simp add: pushMD_fields YEAR_MS_def)

text \<open>
  C8, amended. For every Major node of the output, the \<open>years\<close> field is the fixed
  year weight of the node's lord, the length of a full natural period, and the \<open>days\<close>
  field is the node's actual duration in days, end minus start over the day length.
\<close>

theorem major_duration_fields:
  assumes "computeVimshottari moment_tz I p = Inr out" and "m \<in> set (sequence out)"
  shows "years m = YEARS (md_lord m) \<and> days m = (md_end m - md_start m) / MS_PER_DAY"
proof -
  obtain l a b where "m = pushMD I l a b"
    using run_nodes [OF assms] by blast
  then show ?thesis by (simp add: pushMD_fields)
qed

theorem major_duration_fields_witness:
  "years (pushMD example_table Moon 946684800000 (946684800000 + YEAR_MS)) = 10 \<and>
   days (pushMD example_table Moon 946684800000 (946684800000 + YEAR_MS)) =
     (md_end (pushMD example_table Moon 946684800000 (946684800000 + YEAR_MS)) -
      md_start (pushMD example_table Moon 946684800000 (946684800000 + YEAR_MS))) / MS_PER_DAY \<and>
   days (pushMD example_table Moon 946684800000 (946684800000 + YEAR_MS)) = 3652425 / 10000"
proof -
  let ?m = "pushMD example_table Moon 946684800000 (946684800000 + YEAR_MS)"
  let ?out = "\<lparr>meta = \<lparr>birthUTC = 946684800000, meta_startLord = Moon\<rparr>, sequence = [?m]\<rparr>"
  have mem: "?m \<in> set (sequence ?out)" by simp
  have d: "days ?m = 3652425 / 10000"
    by (simp add: pushMD_fields YEAR_MS_def MS_PER_DAY_def)
  note T = major_duration_fields [OF example_moon_run mem]
  from T have "years ?m = YEARS (md_lord ?m)" by blast
  then have y: "years ?m = 10" by (simp add: pushMD_fields(1))
  from T have e: "days ?m = (md_end ?m - md_start ?m) / MS_PER_DAY" by blast
  show ?thesis using y e d by blast
qed

subsection \<open>Interpretations\<close>

lemma or_null_idem: "or_null (or_null v) = or_null v"
  by (cases v) simp_all

lemma or_null_interpFor: "or_null (interpFor I md ad) = interpFor I md ad"
  by (simp add: interpFor_def Let_def or_null_idem split: option.splits)

text \<open>
  C9. The lookup lower-cases both lord names before it reads the table, so it is
  case-insensitive; it has no failing branch, and a pair without an entry gives the
  absent marker. Every Sub node carries the lookup for (Major lord, Sub lord) and every
  SubSub node the lookup for (Sub lord, SubSub lord).
\<close>

theorem interpretation_lookup:
  "(toLowerCase md = toLowerCase md' \<and> toLowerCase ad = toLowerCase ad' \<longrightarrow>
      interpFor I md ad = interpFor I md' ad') \<and>
   (I (toLowerCase md) = None \<longrightarrow> interpFor I md ad = None) \<and>
   (\<forall>mdBlock. I (toLowerCase md) = Some mdBlock \<and> mdBlock (toLowerCase ad) = None \<longrightarrow>
      interpFor I md ad = None) \<and>
   (\<forall>mdBlock text. I (toLowerCase md) = Some mdBlock \<and> mdBlock (toLowerCase ad) = Some text \<and>
      text \<noteq> [] \<longrightarrow> interpFor I md ad = Some text) \<and>
   (computeVimshottari moment_tz I p = Inr out \<longrightarrow>
      (\<forall>m \<in> set (sequence out). \<forall>a \<in> set (antar m).
         ad_interpretation a = interpFor I (lord_name (md_lord m)) (lord_name (ad_lord a)) \<and>
         (\<forall>d \<in> set (pratyantar a).
            pd_interpretation d = interpFor I (lord_name (ad_lord a)) (lord_name (pd_lord d)))))"
proof -
  have 1: "toLowerCase md = toLowerCase md' \<and> toLowerCase ad = toLowerCase ad' \<longrightarrow>
      interpFor I md ad = interpFor I md' ad'"
    by (simp add: interpFor_def)
  have 2: "I (toLowerCase md) = None \<longrightarrow> interpFor I md ad = None"
    by (simp add: interpFor_def)
  have 3: "\<forall>mdBlock. I (toLowerCase md) = Some mdBlock \<and> mdBlock (toLowerCase ad) = None \<longrightarrow>
      interpFor I md ad = None"
    by (simp add: interpFor_def)
  have 4: "\<forall>mdBlock text. I (toLowerCase md) = Some mdBlock \<and>
      mdBlock (toLowerCase ad) = Some text \<and> text \<noteq> [] \<longrightarrow> interpFor I md ad = Some text"
    by (simp add: interpFor_def)
  have 5: "\<forall>m \<in> set (sequence out). \<forall>a \<in> set (antar m).
         ad_interpretation a = interpFor I (lord_name (md_lord m)) (lord_name (ad_lord a)) \<and>
         (\<forall>d \<in> set (pratyantar a).
            pd_interpretation d = interpFor I (lord_name (ad_lord a)) (lord_name (pd_lord d)))"
    if run: "computeVimshottari moment_tz I p = Inr out"
  proof (intro ballI)
    fix m a
    assume "m \<in> set (sequence out)" and a: "a \<in> set (antar m)"
    then obtain l s e where m: "m = pushMD I l s e" using run_nodes [OF run] by blast
    obtain seg where seg: "a = mk_antar I l seg" using a unfolding m by (auto simp add: pushMD_fields)
    show "ad_interpretation a = interpFor I (lord_name (md_lord m)) (lord_name (ad_lord a)) \<and>
         (\<forall>d \<in> set (pratyantar a).
            pd_interpretation d = interpFor I (lord_name (ad_lord a)) (lord_name (pd_lord d)))"
      unfolding m seg
      by (auto simp add: pushMD_fields mk_antar_fields mk_pratyantar_fields or_null_interpFor)
  qed
  show ?thesis using 1 2 3 4 5 by blast
qed

lemma toLowerCase_examples:
  "toLowerCase ''Sun'' = ''sun''" "toLowerCase ''SUN'' = ''sun''"
  "toLowerCase ''Moon'' = ''moon''" "toLowerCase ''mOoN'' = ''moon''"
  "toLowerCase ''Ketu'' = ''ketu''"
  by code_simp+

lemma example_sun_run:
  "computeVimshottari example_tz example_table (example_payload 30 (Some 1)) =
     Inr \<lparr>meta = \<lparr>birthUTC = 946684800000, meta_startLord = Sun\<rparr>,
          sequence = [pushMD example_table Sun 946684800000 (946684800000 + YEAR_MS)]\<rparr>"
  by (simp add: run_eval nakFromLon_examples)

theorem interpretation_lookup_witness:
  "interpFor example_table ''SUN'' ''mOoN'' = interpFor example_table ''Sun'' ''Moon'' \<and>
   interpFor example_table ''Sun'' ''Moon'' = Some ''Sun-Moon'' \<and>
   interpFor example_table ''Ketu'' ''Moon'' = None \<and>
   interpFor example_table ''Sun'' ''Ketu'' = None \<and>
   ad_lord (antar (pushMD example_table Sun 946684800000 (946684800000 + YEAR_MS)) ! 1) = Moon \<and>
   ad_interpretation
     (antar (pushMD example_table Sun 946684800000 (946684800000 + YEAR_MS)) ! 1) =
     Some ''Sun-Moon''"
proof -
  have k: "example_table (toLowerCase ''Ketu'') = None"
    by (simp add: example_table_def toLowerCase_examples)
  have s: "example_table (toLowerCase ''Sun'') = Some [''moon'' \<mapsto> ''Sun-Moon'']"
    by (simp add: example_table_def toLowerCase_examples)
  have sk: "[''moon'' \<mapsto> ''Sun-Moon''] (toLowerCase ''Ketu'') = None"
    by (simp add: toLowerCase_examples)
  have sm: "[''moon'' \<mapsto> ''Sun-Moon''] (toLowerCase ''Moon'') = Some ''Sun-Moon''"
    by (simp add: toLowerCase_examples)
  have c: "toLowerCase ''SUN'' = toLowerCase ''Sun'' \<and> toLowerCase ''mOoN'' = toLowerCase ''Moon''"
    by (simp add: toLowerCase_examples)
  from interpretation_lookup [of "''SUN''" "''Sun''" "''mOoN''" "''Moon''" example_table] c
  have 1: "interpFor example_table ''SUN'' ''mOoN'' = interpFor example_table ''Sun'' ''Moon''"
    by blast
  from interpretation_lookup [of "''Sun''" "''Sun''" "''Moon''" "''Moon''" example_table] s sm
  have 2: "interpFor example_table ''Sun'' ''Moon'' = Some ''Sun-Moon''"
    by blast
  from interpretation_lookup [of "''Ketu''" "''Ketu''" "''Moon''" "''Moon''" example_table] k
  have 3: "interpFor example_table ''Ketu'' ''Moon'' = None"
    by blast
  from interpretation_lookup [of "''Sun''" "''Sun''" "''Ketu''" "''Ketu''" example_table] s sk
  have 4: "interpFor example_table ''Sun'' ''Ketu'' = None"
    by blast
  let ?m = "pushMD example_table Sun 946684800000 (946684800000 + YEAR_MS)"
  let ?out = "\<lparr>meta = \<lparr>birthUTC = 946684800000, meta_startLord = Sun\<rparr>, sequence = [?m]\<rparr>"
  have lords: "map ad_lord (antar ?m) = rotateFromStart Sun" by (rule antar_lords)
  have len: "length (antar ?m) = 9"
    using arg_cong [OF lords, of length] by (simp add: length_rotateFromStart)
  have "ad_lord (antar ?m ! 1) = map ad_lord (antar ?m) ! 1" using len by simp
  then have 5: "ad_lord (antar ?m ! 1) = Moon"
    unfolding lords by (simp add: rotateFromStart_cases)
  have mem: "?m \<in> set (sequence ?out)" by simp
  have amem: "antar ?m ! 1 \<in> set (antar ?m)" using len by simp
  from interpretation_lookup [of "''Sun''" "''Sun''" "''Moon''" "''Moon''" example_table
      example_tz "example_payload 30 (Some 1)" ?out] example_sun_run mem amem
  have "ad_interpretation (antar ?m ! 1) =
      interpFor example_table (lord_name (md_lord ?m)) (lord_name (ad_lord (antar ?m ! 1)))"
    by blast
  then have 6: "ad_interpretation (antar ?m ! 1) = Some ''Sun-Moon''"
    unfolding 5 using 2 by (simp add: pushMD_fields(1))
  show ?thesis using 1 2 3 4 5 6 by blast
qed

subsection \<open>A period boundary on the horizon\<close>

text \<open>
  C6 fails on the code. With the Moon at longitude 0 the anchor is a full Ketu period,
  so the ninth period ends exactly at the default horizon of 120 years. The loop tests
  \<^verbatim>\<open>mdEnd > capEnd\<close>, keeps that period unclipped and goes on: the next period, Ketu
  again, is clipped to the horizon where it starts, and is pushed with end equal to
  start. Its children tile that empty span.
\<close>

theorem zero_length_major_at_horizon:
  "map (\<lambda>m. (md_lord m, md_start m, md_end m))
     (sequence_of (computeVimshottari example_tz example_table (example_payload 0 None))) =
   [(Ketu, 946684800000, 946684800000 + 7 * YEAR_MS),
    (Venus, 946684800000 + 7 * YEAR_MS, 946684800000 + 27 * YEAR_MS),
    (Sun, 946684800000 + 27 * YEAR_MS, 946684800000 + 33 * YEAR_MS),
    (Moon, 946684800000 + 33 * YEAR_MS, 946684800000 + 43 * YEAR_MS),
    (Mars, 946684800000 + 43 * YEAR_MS, 946684800000 + 50 * YEAR_MS),
    (Rahu, 946684800000 + 50 * YEAR_MS, 946684800000 + 68 * YEAR_MS),
    (Jupiter, 946684800000 + 68 * YEAR_MS, 946684800000 + 84 * YEAR_MS),
    (Saturn, 946684800000 + 84 * YEAR_MS, 946684800000 + 103 * YEAR_MS),
    (Mercury, 946684800000 + 103 * YEAR_MS, 946684800000 + 120 * YEAR_MS),
    (Ketu, 946684800000 + 120 * YEAR_MS, 946684800000 + 120 * YEAR_MS)] \<and>
   md_end (last (sequence_of
     (computeVimshottari example_tz example_table (example_payload 0 None)))) =
   md_start (last (sequence_of
     (computeVimshottari example_tz example_table (example_payload 0 None))))"
  by (simp add: sequence_of_def run_eval nakFromLon_examples pushMD_fields)

subsection \<open>Input validation\<close>

text \<open>
  The claim C7 fails for a non-positive horizon and for a longitude outside \<open>[0, 360)\<close>:
  with \<open>totalYears = 0\<close> the call returns a schedule of one Major period of length
  zero, and the longitude 400 is reduced to 40 and starts the Moon period.
\<close>

theorem invalid_input_counterexample:
  "computeVimshottari example_tz example_table (example_payload 10 (Some 0)) =
     Inr \<lparr>meta = \<lparr>birthUTC = 946684800000, meta_startLord = Ketu\<rparr>,
          sequence = [pushMD example_table Ketu 946684800000 946684800000]\<rparr> \<and>
   computeVimshottari example_tz example_table (example_payload 400 (Some 1)) =
     Inr \<lparr>meta = \<lparr>birthUTC = 946684800000, meta_startLord = Moon\<rparr>,
          sequence = [pushMD example_table Moon 946684800000 (946684800000 + YEAR_MS)]\<rparr>"
  by (simp add: run_eval nakFromLon_examples)

text \<open>
  C7, amended. \<open>computeVimshottari\<close> rejects with the invalid-payload error, before
  anything is computed and with no partial output, exactly the inputs whose
  \<open>birthDate\<close>, \<open>birthTime\<close> or \<open>timeZone\<close> is missing or empty or whose
  \<open>moonSiderealDeg\<close> is not a number. A longitude out of range and a horizon that is
  not positive are not among them.
\<close>

theorem guard_rejects_missing_fields:
  "computeVimshottari moment_tz I p = Inl InvalidPayload \<longleftrightarrow>
     falsy (birthDate p) \<or> falsy (birthTime p) \<or> falsy (timeZone p) \<or>
     moonSiderealDeg p = None"
proof -
  let ?g = "falsy (birthDate p) \<or> falsy (birthTime p) \<or> falsy (timeZone p) \<or>
      moonSiderealDeg p = None"
  show ?thesis
  proof (cases ?g)
    case True
    then show ?thesis by (simp add: computeVimshottari_def)
  next
    case False
    have "computeVimshottari moment_tz I p \<noteq> Inl InvalidPayload"
    proof (cases "moment_tz (the (birthDate p) @ '' '' @ the (birthTime p)) (the (timeZone p))")
      case None
      then show ?thesis using False by (simp add: computeVimshottari_def)
    next
      case (Some b)
      then have "computeVimshottari moment_tz I p =
          schedule_from I b (the (moonSiderealDeg p)) (horizonYears p)"
        using False by (auto simp add: computeVimshottari_def)
      then show ?thesis unfolding schedule_from_eq [OF refl refl refl] by simp
    qed
    then show ?thesis using False by simp
  qed
qed

theorem guard_rejects_missing_fields_witness:
  "computeVimshottari example_tz example_table
     \<lparr>birthDate = Some ''2000-01-01'', birthTime = Some '''', timeZone = Some ''UTC'',
      moonSiderealDeg = Some 10, totalYears = None\<rparr> = Inl InvalidPayload \<and>
   computeVimshottari example_tz example_table
     \<lparr>birthDate = Some ''2000-01-01'', birthTime = Some ''00:00'', timeZone = None,
      moonSiderealDeg = Some 10, totalYears = None\<rparr> = Inl InvalidPayload \<and>
   computeVimshottari example_tz example_table
     \<lparr>birthDate = Some ''2000-01-01'', birthTime = Some ''00:00'', timeZone = Some ''UTC'',
      moonSiderealDeg = None, totalYears = None\<rparr> = Inl InvalidPayload \<and>
   computeVimshottari example_tz example_table (example_payload 400 (Some 0)) \<noteq>
     Inl InvalidPayload"
proof -
  let ?p1 = "\<lparr>birthDate = Some ''2000-01-01'', birthTime = Some '''', timeZone = Some ''UTC'',
      moonSiderealDeg = Some 10, totalYears = None\<rparr>"
  let ?p2 = "\<lparr>birthDate = Some ''2000-01-01'', birthTime = Some ''00:00'', timeZone = None,
      moonSiderealDeg = Some (10 :: real), totalYears = None :: real option\<rparr>"
  let ?p3 = "\<lparr>birthDate = Some ''2000-01-01'', birthTime = Some ''00:00'',
      timeZone = Some ''UTC'', moonSiderealDeg = None, totalYears = None\<rparr>"
  have 1: "computeVimshottari example_tz example_table ?p1 = Inl InvalidPayload"
    using guard_rejects_missing_fields [of example_tz example_table ?p1] by simp
  have 2: "computeVimshottari example_tz example_table ?p2 = Inl InvalidPayload"
    using guard_rejects_missing_fields [of example_tz example_table ?p2] by simp
  have 3: "computeVimshottari example_tz example_table ?p3 = Inl InvalidPayload"
    using guard_rejects_missing_fields [of example_tz example_table ?p3] by simp
  have 4: "computeVimshottari example_tz example_table (example_payload 400 (Some 0)) \<noteq>
      Inl InvalidPayload"
    using guard_rejects_missing_fields [of example_tz example_table "example_payload 400 (Some 0)"]
    by (simp add: example_payload_def)
  show ?thesis using 1 2 3 4 by blast
qed

subsection \<open>Rounding in the numeric kernel\<close>

lemma pow2_up_numeral:
  "pow2_up (numeral k) x p = (if 2 * p \<le> x then pow2_up (pred_numeral k) x (2 * p) else p)"
  by (simp add: numeral_eq_Suc)

lemma pow2_down_numeral:
  "pow2_down (numeral k) x p = (if x < p then pow2_down (pred_numeral k) x (p / 2) else p)"
  by (simp add: numeral_eq_Suc)

lemmas fl_eval = fl_def binade_def round_even_def pow2_up_numeral pow2_down_numeral Let_def

text \<open>
  \<open>binade\<close> finds the binade of a value in the normal range, and \<open>fl\<close> returns a
  multiple of the spacing at most half a spacing away.
\<close>

lemma pow2_up_bounds:
  "0 < p \<Longrightarrow> p \<le> x \<Longrightarrow> x < p * 2 ^ Suc n \<Longrightarrow>
   0 < pow2_up n x p \<and> pow2_up n x p \<le> x \<and> x < 2 * pow2_up n x p"
proof (induction n arbitrary: p)
  case 0
  then show ?case by simp
next
  case (Suc n)
  show ?case
  proof (cases "2 * p \<le> x")
    case True
    have "x < 2 * p * 2 ^ Suc n" using Suc.prems(3) by simp
    then show ?thesis using Suc.IH [of "2 * p"] Suc.prems(1) True by simp
  next
    case False
    then show ?thesis using Suc.prems by simp
  qed
qed

lemma pow2_down_bounds:
  "0 < p \<Longrightarrow> x < 2 * p \<Longrightarrow> p / 2 ^ n \<le> x \<Longrightarrow>
   0 < pow2_down n x p \<and> pow2_down n x p \<le> x \<and> x < 2 * pow2_down n x p"
proof (induction n arbitrary: p)
  case 0
  then show ?case by simp
next
  case (Suc n)
  show ?case
  proof (cases "x < p")
    case True
    have "p / 2 / 2 ^ n \<le> x" using Suc.prems(3) by simp
    then show ?thesis using Suc.IH [of "p / 2"] Suc.prems(1) True by simp
  next
    case False
    then show ?thesis using Suc.prems by simp
  qed
qed

lemma binade_bounds:
  assumes "1 / 2 ^ 1022 \<le> x" and "x < 2 ^ 1024"
  shows "0 < binade x \<and> binade x \<le> x \<and> x < 2 * binade x"
proof (cases "1 \<le> x")
  case True
  have "x < 1 * 2 ^ Suc 1023" using assms(2) by simp
  then show ?thesis
    using pow2_up_bounds [of 1 x 1023] True by (simp add: binade_def)
next
  case False
  have "1 / 2 ^ 1022 \<le> x" by (rule assms(1))
  then show ?thesis
    using pow2_down_bounds [of 1 x 1022] False by (simp add: binade_def)
qed

lemma round_even_error: "\<bar>of_int (round_even y) - y\<bar> \<le> 1 / 2"
proof -
  have "of_int \<lfloor>y\<rfloor> \<le> y" "y < of_int \<lfloor>y\<rfloor> + 1" by linarith+
  then show ?thesis by (auto simp add: round_even_def Let_def)
qed

lemma fl_error:
  assumes "1 / 2 ^ 1022 \<le> \<bar>x\<bar>" and "\<bar>x\<bar> < 2 ^ 1024"
  shows "\<bar>fl x - x\<bar> \<le> binade \<bar>x\<bar> / 2 ^ 53"
proof -
  define u where "u = binade \<bar>x\<bar> / 2 ^ 52"
  define k where "k = round_even (x / u)"
  have u: "0 < u" using binade_bounds [OF assms] by (simp add: u_def)
  have x: "x \<noteq> 0" using assms(1) by auto
  have "fl x = of_int k * u" using x by (simp add: fl_def Let_def u_def k_def)
  then have "fl x - x = (of_int k - x / u) * u" using u by (simp add: algebra_simps)
  then have "\<bar>fl x - x\<bar> = \<bar>of_int k - x / u\<bar> * u"
    using u by (simp add: abs_mult)
  also have "\<dots> \<le> 1 / 2 * u"
    using round_even_error [of "x / u"] u unfolding k_def by (intro mult_right_mono) simp_all
  finally show ?thesis by (simp add: u_def)
qed

text \<open>Known binary64 values: 0.1, the constant \<open>360 / 27\<close>, a whole number, a tie.\<close>

lemma fl_examples:
  "fl (1 / 10) = 3602879701896397 / 36028797018963968"
  "fl (360 / 27) = 7505999378950827 / 562949953421312"
  "fl 946684800000 = 946684800000"
  "fl (9007199254740993) = 9007199254740992"
  "fl (9007199254740995) = 9007199254740996"
  by (simp_all add: fl_eval)

lemma NAK_LEN_DEG_f64_value: "NAK_LEN_DEG_f64 = 7505999378950827 / 562949953421312"
  by (simp add: NAK_LEN_DEG_f64_def fl_eval)

lemma nakFromLon_f64_fields:
  "index (nakFromLon_f64 x) = \<lfloor>fl (normalize360_f64 x / NAK_LEN_DEG_f64)\<rfloor>"
  "fracElapsed (nakFromLon_f64 x) =
     fl (fl (normalize360_f64 x -
             fl (real_of_int \<lfloor>fl (normalize360_f64 x / NAK_LEN_DEG_f64)\<rfloor> * NAK_LEN_DEG_f64)) /
         NAK_LEN_DEG_f64)"
  by (simp_all add: nakFromLon_f64_def Let_def)

lemma segments_loop_f64_last:
  "segments_loop_f64 ps pd w t [l] c =
     [\<lparr>seg_lord = l, startMs = c, endMs = fl (c + fl (fl (ps + pd) - c)),
       durationMs = fl (fl (ps + pd) - c)\<rparr>]"
  by (simp add: Let_def)

lemma segments_loop_f64_next:
  "segments_loop_f64 ps pd w t (l # l' # rest) c =
     \<lparr>seg_lord = l, startMs = c, endMs = fl (c + fl (pd * fl (w l / t))),
       durationMs = fl (pd * fl (w l / t))\<rparr> #
     segments_loop_f64 ps pd w t (l' # rest) (fl (c + fl (pd * fl (w l / t))))"
  by (simp add: Let_def)

lemma nakFromLon_f64_tiny_negative:
  "normalize360_f64 (- (1 / 1180591620717411303424)) = 360"
  "index (nakFromLon_f64 (- (1 / 1180591620717411303424))) = 27"
  "fracElapsed (nakFromLon_f64 (- (1 / 1180591620717411303424))) = 0"
proof -
  have n: "NAK_LEN_DEG_f64 = 7505999378950827 / 562949953421312" by (rule NAK_LEN_DEG_f64_value)
  have da: "normalize360_f64 (- (1 / 1180591620717411303424)) = 360"
    by (simp add: normalize360_f64_def js_rem_def js_trunc_def ceiling_def fl_eval)
  have qa: "fl (360 / (7505999378950827 / 562949953421312)) = 27" by (simp add: fl_eval)
  have ia: "\<lfloor>27 :: real\<rfloor> = 27" by simp
  have ma: "fl (real_of_int 27 * (7505999378950827 / 562949953421312)) = 360" by (simp add: fl_eval)
  have sa: "fl (360 - 360) = 0" by (simp add: fl_eval)
  have fa: "fl (0 / (7505999378950827 / 562949953421312)) = 0" by (simp add: fl_eval)
  have indexa: "index (nakFromLon_f64 (- (1 / 1180591620717411303424))) = 27"
    unfolding nakFromLon_f64_fields da n qa ia by (rule refl)
  have fraca: "fracElapsed (nakFromLon_f64 (- (1 / 1180591620717411303424))) = 0"
    unfolding nakFromLon_f64_fields da n qa ia ma sa fa by (rule refl)
  show "normalize360_f64 (- (1 / 1180591620717411303424)) = 360" by (rule da)
  show "index (nakFromLon_f64 (- (1 / 1180591620717411303424))) = 27" by (rule indexa)
  show "fracElapsed (nakFromLon_f64 (- (1 / 1180591620717411303424))) = 0" by (rule fraca)
qed

lemma nakFromLon_f64_below_boundary:
  "index (nakFromLon_f64 (7975124340135253 / 35184372088832)) = 17"
  "fracElapsed (nakFromLon_f64 (7975124340135253 / 35184372088832)) = - (5404319552844595 / 2535301200456458802993406410752)"
proof -
  have n: "NAK_LEN_DEG_f64 = 7505999378950827 / 562949953421312" by (rule NAK_LEN_DEG_f64_value)
  have db: "normalize360_f64 (7975124340135253 / 35184372088832) = 7975124340135253 / 35184372088832"
    by (simp add: normalize360_f64_def js_rem_def js_trunc_def ceiling_def fl_eval)
  have qb: "fl ((7975124340135253 / 35184372088832) / (7505999378950827 / 562949953421312)) = 17" by (simp add: fl_eval)
  have ib: "\<lfloor>17 :: real\<rfloor> = 17" by simp
  have mb: "fl (real_of_int 17 * (7505999378950827 / 562949953421312)) = 3987562170067627 / 17592186044416" by (simp add: fl_eval)
  have sb: "fl ((7975124340135253 / 35184372088832) - (3987562170067627 / 17592186044416)) = - (1 / 35184372088832)" by (simp add: fl_eval)
  have fb: "fl ((- (1 / 35184372088832)) / (7505999378950827 / 562949953421312)) = - (5404319552844595 / 2535301200456458802993406410752)" by (simp add: fl_eval)
  have indexb: "index (nakFromLon_f64 (7975124340135253 / 35184372088832)) = 17"
    unfolding nakFromLon_f64_fields db n qb ib by (rule refl)
  have fracb: "fracElapsed (nakFromLon_f64 (7975124340135253 / 35184372088832)) = - (5404319552844595 / 2535301200456458802993406410752)"
    unfolding nakFromLon_f64_fields db n qb ib mb sb fb by (rule refl)
  show "index (nakFromLon_f64 (7975124340135253 / 35184372088832)) = 17" by (rule indexb)
  show "fracElapsed (nakFromLon_f64 (7975124340135253 / 35184372088832)) = - (5404319552844595 / 2535301200456458802993406410752)" by (rule fracb)
qed

text \<open>
  C10 fails on the code. For the longitude \<open>- 2 ^ - 70\<close> the remainder is the longitude
  itself, and adding 360 rounds to 360: \<open>normalize360\<close> returns 360, outside \<open>[0, 360)\<close>,
  and \<open>nakFromLon\<close> returns the index 27, outside \<open>0..26\<close>. For the binary64 value printed
  as 226.66666666666666 the quotient rounds up to 17 and the fraction is negative.
\<close>

theorem nakshatra_index_out_of_range:
  "normalize360_f64 (- (1 / 2 ^ 70)) = 360 \<and>
   index (nakFromLon_f64 (- (1 / 2 ^ 70))) = 27 \<and>
   index (nakFromLon_f64 (7975124340135253 / 35184372088832)) = 17 \<and>
   fracElapsed (nakFromLon_f64 (7975124340135253 / 35184372088832)) < 0"
proof -
  have x: "- (1 / 2 ^ 70) = (- (1 / 1180591620717411303424) :: real)" by simp
  show ?thesis
    unfolding x nakFromLon_f64_tiny_negative nakFromLon_f64_below_boundary by simp
qed

text \<open>
  C4 fails on the code, by the defect of C10. For the binary64 longitude printed as
  226.66666666666666 the elapsed fraction is negative, so the elapsed part of the
  starting Mercury period is negative and the remaining part is longer than the full
  period of 17 years: the unclipped duration of the anchor is \<open>D * (1 - f)\<close> with \<open>f\<close>
  outside \<open>[0, 1)\<close>.
\<close>

theorem anchor_longer_than_full_period:
  "anchor_f64 (7975124340135253 / 35184372088832) = Some (Mercury, 536468184000, 8789494726656019 / 16384) \<and>
   (536468184000 :: real) < 8789494726656019 / 16384"
proof -
  have st: "array_get LORDS (js_rem (real_of_int 17) 9) = Some Mercury"
    by (simp add: js_rem_def js_trunc_def array_get_def LORDS_def)
  have t: "fl (YEAR_MS * YEARS Mercury) = 536468184000" by (simp add: YEAR_MS_def fl_eval)
  have e: "fl (536468184000 * (- (5404319552844595 / 2535301200456458802993406410752))) = - (5029389225 / 4398046511104)" by (simp add: fl_eval)
  have r: "fl (536468184000 - (- (5029389225 / 4398046511104))) = 8789494726656019 / 16384" by (simp add: fl_eval)
  have "anchor_f64 (7975124340135253 / 35184372088832) = Some (Mercury, 536468184000, 8789494726656019 / 16384)"
    unfolding anchor_f64_def Let_def st option.case t nakFromLon_f64_below_boundary e r
    by (rule refl)
  then show ?thesis by simp
qed

lemma buildWeightedSegments_f64_unfold:
  "buildWeightedSegments_f64 ps pd order w =
     segments_loop_f64 ps pd w (foldl (\<lambda>acc l. fl (acc + w l)) 0 order) order ps"
  by (simp add: buildWeightedSegments_f64_def)

lemma two_segments_f64:
  "buildWeightedSegments_f64 (- 1) 3 [Sun, Venus] YEARS =
     [\<lparr>seg_lord = Sun, startMs = - 1, endMs = - (1385722962267845 / 4503599627370496), durationMs = 3117876665102651 / 4503599627370496\<rparr>,
      \<lparr>seg_lord = Venus, startMs = - (1385722962267845 / 4503599627370496), endMs = 9007199254740991 / 4503599627370496, durationMs = 2598230554252209 / 1125899906842624\<rparr>]"
proof -
  have tot: "foldl (\<lambda>acc l. fl (acc + YEARS l)) 0 [Sun, Venus] = 26"
    by (simp add: fl_eval)
  have as0: "fl (6 / 26) = 4157168886803535 / 18014398509481984" by (simp add: fl_eval)
  have bs0: "fl (3 * (4157168886803535 / 18014398509481984)) = 3117876665102651 / 4503599627370496" by (simp add: fl_eval)
  have cs0: "fl ((- 1) + (3117876665102651 / 4503599627370496)) = - (1385722962267845 / 4503599627370496)" by (simp add: fl_eval)
  have ps: "fl ((- 1) + 3) = 2" by (simp add: fl_eval)
  have rs: "fl (2 - (- (1385722962267845 / 4503599627370496))) = 2598230554252209 / 1125899906842624" by (simp add: fl_eval)
  have es: "fl ((- (1385722962267845 / 4503599627370496)) + (2598230554252209 / 1125899906842624)) = 9007199254740991 / 4503599627370496" by (simp add: fl_eval)
  show ?thesis
    unfolding buildWeightedSegments_f64_unfold tot segments_loop_f64_next
      segments_loop_f64_last YEARS.simps as0 bs0 cs0 ps rs es
    by (rule refl)
qed

text \<open>
  The Sub periods of the anchor period of a birth at 1956-10-21T11:09:00Z with the Moon
  at 108.27 degrees: the Major period of Mercury starts at \<open>-416407860000\<close> and lasts
  \<open>471957884874.00037\<close> milliseconds.
\<close>

lemma mercury_segments_f64:
  "buildWeightedSegments_f64 (- 416407860000) (3866278992887811 / 8192) (rotateFromStart Mercury) YEARS =
     [\<lparr>seg_lord = Mercury, startMs = - 416407860000, endMs = - (2863490331794227 / 8192), durationMs = 8763565717212371 / 131072\<rparr>,
      \<lparr>seg_lord = Ketu, startMs = - (2863490331794227 / 8192), endMs = - (1318978695271219 / 4096), durationMs = 7217054120057247 / 262144\<rparr>,
      \<lparr>seg_lord = Venus, startMs = - (1318978695271219 / 4096), endMs = - (3987155116788939 / 16384), durationMs = 1288759664295937 / 16384\<rparr>,
      \<lparr>seg_lord = Sun, startMs = - (3987155116788939 / 16384), endMs = - (1800263608750079 / 8192), durationMs = 3093023194310249 / 131072\<rparr>,
      \<lparr>seg_lord = Moon, startMs = - (1800263608750079 / 8192), endMs = - (5912294770704379 / 32768), durationMs = 1288759664295937 / 32768\<rparr>,
      \<lparr>seg_lord = Mars, startMs = - (5912294770704379 / 32768), endMs = - (5010163005697223 / 32768), durationMs = 7217054120057247 / 262144\<rparr>,
      \<lparr>seg_lord = Rahu, startMs = - (5010163005697223 / 32768), endMs = - (5380791219929073 / 65536), durationMs = 4639534791465373 / 65536\<rparr>,
      \<lparr>seg_lord = Jupiter, startMs = - (5380791219929073 / 65536), endMs = - (2513520588364149 / 131072), durationMs = 8248061851493997 / 131072\<rparr>,
      \<lparr>seg_lord = Saturn, startMs = - (2513520588364149 / 131072), endMs = 7281052860284975 / 131072, durationMs = 2448643362162281 / 32768\<rparr>]"
proof -
  have tot: "foldl (\<lambda>acc l. fl (acc + YEARS l)) 0
      [Mercury, Ketu, Venus, Sun, Moon, Mars, Rahu, Jupiter, Saturn] = 120"
    by (simp add: fl_eval)
  have am0: "fl (17 / 120) = 2552039788843281 / 18014398509481984" by (simp add: fl_eval)
  have bm0: "fl ((3866278992887811 / 8192) * (2552039788843281 / 18014398509481984)) = 8763565717212371 / 131072" by (simp add: fl_eval)
  have cm0: "fl ((- 416407860000) + (8763565717212371 / 131072)) = - (2863490331794227 / 8192)" by (simp add: fl_eval)
  have am1: "fl (7 / 120) = 4203359652212463 / 72057594037927936" by (simp add: fl_eval)
  have bm1: "fl ((3866278992887811 / 8192) * (4203359652212463 / 72057594037927936)) = 7217054120057247 / 262144" by (simp add: fl_eval)
  have cm1: "fl ((- (2863490331794227 / 8192)) + (7217054120057247 / 262144)) = - (1318978695271219 / 4096)" by (simp add: fl_eval)
  have am2: "fl (20 / 120) = 6004799503160661 / 36028797018963968" by (simp add: fl_eval)
  have bm2: "fl ((3866278992887811 / 8192) * (6004799503160661 / 36028797018963968)) = 1288759664295937 / 16384" by (simp add: fl_eval)
  have cm2: "fl ((- (1318978695271219 / 4096)) + (1288759664295937 / 16384)) = - (3987155116788939 / 16384)" by (simp add: fl_eval)
  have am3: "fl (6 / 120) = 3602879701896397 / 72057594037927936" by (simp add: fl_eval)
  have bm3: "fl ((3866278992887811 / 8192) * (3602879701896397 / 72057594037927936)) = 3093023194310249 / 131072" by (simp add: fl_eval)
  have cm3: "fl ((- (3987155116788939 / 16384)) + (3093023194310249 / 131072)) = - (1800263608750079 / 8192)" by (simp add: fl_eval)
  have am4: "fl (10 / 120) = 6004799503160661 / 72057594037927936" by (simp add: fl_eval)
  have bm4: "fl ((3866278992887811 / 8192) * (6004799503160661 / 72057594037927936)) = 1288759664295937 / 32768" by (simp add: fl_eval)
  have cm4: "fl ((- (1800263608750079 / 8192)) + (1288759664295937 / 32768)) = - (5912294770704379 / 32768)" by (simp add: fl_eval)
  have am5: "fl (7 / 120) = 4203359652212463 / 72057594037927936" by (simp add: fl_eval)
  have bm5: "fl ((3866278992887811 / 8192) * (4203359652212463 / 72057594037927936)) = 7217054120057247 / 262144" by (simp add: fl_eval)
  have cm5: "fl ((- (5912294770704379 / 32768)) + (7217054120057247 / 262144)) = - (5010163005697223 / 32768)" by (simp add: fl_eval)
  have am6: "fl (18 / 120) = 5404319552844595 / 36028797018963968" by (simp add: fl_eval)
  have bm6: "fl ((3866278992887811 / 8192) * (5404319552844595 / 36028797018963968)) = 4639534791465373 / 65536" by (simp add: fl_eval)
  have cm6: "fl ((- (5010163005697223 / 32768)) + (4639534791465373 / 65536)) = - (5380791219929073 / 65536)" by (simp add: fl_eval)
  have am7: "fl (16 / 120) = 4803839602528529 / 36028797018963968" by (simp add: fl_eval)
  have bm7: "fl ((3866278992887811 / 8192) * (4803839602528529 / 36028797018963968)) = 8248061851493997 / 131072" by (simp add: fl_eval)
  have cm7: "fl ((- (5380791219929073 / 65536)) + (8248061851493997 / 131072)) = - (2513520588364149 / 131072)" by (simp add: fl_eval)
  have pm: "fl ((- 416407860000) + (3866278992887811 / 8192)) = 455065803767811 / 8192" by (simp add: fl_eval)
  have rm: "fl ((455065803767811 / 8192) - (- (2513520588364149 / 131072))) = 2448643362162281 / 32768" by (simp add: fl_eval)
  have em: "fl ((- (2513520588364149 / 131072)) + (2448643362162281 / 32768)) = 7281052860284975 / 131072" by (simp add: fl_eval)
  show ?thesis
    unfolding buildWeightedSegments_f64_unfold rotateFromStart_cases tot
      segments_loop_f64_next segments_loop_f64_last YEARS.simps
      am0 bm0 cm0 am1 bm1 cm1 am2 bm2 cm2
      am3 bm3 cm3 am4 bm4 cm4 am5 bm5 cm5
      am6 bm6 cm6 am7 bm7 cm7 pm rm em
    by (rule refl)
qed

text \<open>
  C1 fails on the code. The last segment gets the duration
  \<open>parentStart + parentDur - cursor\<close>, but its end is computed as \<open>cursor + duration\<close>, and
  that sum is rounded again: for \<open>parentStart = - 1\<close>, \<open>parentDur = 3\<close> and the order Sun,
  Venus the last segment ends at \<open>2 - 2 ^ - 52\<close>, not at 2. In the call made for the anchor
  period above, the last Sub period ends one binary64 step before the Major period ends.
\<close>

theorem last_segment_end_misses_parent_end:
  "endMs (last (buildWeightedSegments_f64 (- 1) 3 [Sun, Venus] YEARS)) = 9007199254740991 / 4503599627370496 \<and>
   fl (- 1 + 3) = 2 \<and>
   endMs (last (buildWeightedSegments_f64 (- 1) 3 [Sun, Venus] YEARS)) < fl (- 1 + 3) \<and>
   endMs (last (buildWeightedSegments_f64 (- 416407860000) (3866278992887811 / 8192)
     (rotateFromStart Mercury) YEARS)) = 7281052860284975 / 131072 \<and>
   fl (- 416407860000 + 3866278992887811 / 8192) = 455065803767811 / 8192 \<and>
   endMs (last (buildWeightedSegments_f64 (- 416407860000) (3866278992887811 / 8192)
     (rotateFromStart Mercury) YEARS)) < fl (- 416407860000 + 3866278992887811 / 8192)"
proof -
  have p1: "fl (- 1 + 3) = 2" by (simp add: fl_eval)
  have p2: "fl (- 416407860000 + 3866278992887811 / 8192) = 455065803767811 / 8192" by (simp add: fl_eval)
  show ?thesis
    unfolding two_segments_f64 mercury_segments_f64 p1 p2 by simp
qed

end
